theory Spec2Isabelle
  imports Main "HOL-Library.Sublist"
begin

section \<open>JavaScript values used by the engine wrapper\<close>

text \<open>
  Of a number the code only tests the truthiness and takes the text (in a template
  literal), so a JavaScript \<^verbatim>\<open>number\<close> is one of three kinds:
  \<^item> \<open>NaN\<close>;
  \<^item> \<open>Num k\<close>, a safe integer: an integer of magnitude at most \<open>2\<^sup>5\<^sup>3 - 1\<close>, which
    JavaScript prints in plain decimal digits (\<open>Num (safe 0)\<close> stands for \<open>0\<close> and for
    \<open>-0\<close>, which print and test alike);
  \<^item> \<open>Double s\<close>, any other number (a fraction, an infinity, an integer outside the safe
    range), given by the text \<open>s\<close> that JavaScript prints for it, such as \<^verbatim>\<open>2.5\<close>,
    \<^verbatim>\<open>Infinity\<close> or \<^verbatim>\<open>1e+21\<close>. Such a number is never \<open>0\<close>.
  An optional field (\<^verbatim>\<open>depth?: number\<close>) is an \<open>option\<close>: \<open>None\<close> is \<^verbatim>\<open>undefined\<close>.
\<close>

typedef safe_integer = "{n :: int. - 9007199254740991 \<le> n \<and> n \<le> 9007199254740991}"
  morphisms int_of safe
  by (rule exI [of _ 0]) simp

datatype number = NaN | Num safe_integer | Double string

text \<open>Truthiness of a number: \<open>0\<close> and \<open>NaN\<close> are falsy, every other number is truthy.\<close>

fun truthy :: "number \<Rightarrow> bool" where
  "truthy NaN = False"
| "truthy (Num k) = (int_of k \<noteq> 0)"
| "truthy (Double s) = True"

definition digit :: "nat \<Rightarrow> char" where
  "digit d = ''0123456789'' ! (d mod 10)"

fun digits :: "nat \<Rightarrow> string" where
  "digits n = (if n < 10 then [digit n] else digits (n div 10) @ [digit (n mod 10)])"

declare digits.simps [simp del]

text \<open>Number-to-string conversion, as a template literal applies it.\<close>

fun Number_toString :: "number \<Rightarrow> string" where
  "Number_toString NaN = ''NaN''"
| "Number_toString (Num k) =
     (if int_of k < 0 then ''-'' @ digits (nat (- int_of k)) else digits (nat (int_of k)))"
| "Number_toString (Double s) = s"

text \<open>\<^verbatim>\<open>data.startsWith(p)\<close>.\<close>

definition startsWith :: "string \<Rightarrow> string \<Rightarrow> bool" where
  "startsWith data p = prefix p data"

text \<open>
  \<^verbatim>\<open>data.split(' ')\<close>: the pieces between the separators, empty pieces kept; the
  result is never empty.
\<close>

fun split :: "char \<Rightarrow> string \<Rightarrow> string list" where
  "split sep [] = [[]]"
| "split sep (c # cs) =
     (if c = sep then [] # split sep cs
      else (case split sep cs of
              [] \<Rightarrow> [[c]]
            | p # ps \<Rightarrow> (c # p) # ps))"

text \<open>\<^verbatim>\<open>parts[i]\<close>: \<^verbatim>\<open>undefined\<close> (here \<open>None\<close>) out of range.\<close>

definition index :: "'a list \<Rightarrow> nat \<Rightarrow> 'a option" where
  "index xs i = (if i < length xs then Some (xs ! i) else None)"

section \<open>types/stockfish: the commands\<close>

text \<open>
  \<open>Str s\<close> is a command given as a string; the other constructors are the object
  commands, told apart by their \<^verbatim>\<open>cmd\<close> field. \<open>Other c\<close> is an object whose \<^verbatim>\<open>cmd\<close>
  field is none of the three the type declares: the type excludes it, the code has a
  branch for it.
\<close>

datatype StockfishCommand =
    Str string
  | Position string
  | Go "number option" "number option"
  | SetOption string "string + number"
  | Other string

text \<open>The commands that inhabit the declared type \<^verbatim>\<open>StockfishCommand\<close>.\<close>

fun is_StockfishCommand :: "StockfishCommand \<Rightarrow> bool" where
  "is_StockfishCommand (Str s) = (s \<in> {''uci'', ''isready'', ''ucinewgame'', ''quit''})"
| "is_StockfishCommand (Other c) = False"
| "is_StockfishCommand _ = True"

section \<open>stockfish/Engine.ts: ChessEngine\<close>

datatype promise = Pending | Fulfilled | Rejected

text \<open>
  A worker object: the messages passed to its \<^verbatim>\<open>postMessage\<close>, oldest first, and the
  promise that the handlers installed on it by \<^verbatim>\<open>init\<close> resolve or reject.
\<close>

record StockfishWorker =
  posted :: "string list"
  ready :: promise

text \<open>
  The engine object. \<open>workers\<close> holds every worker that \<^verbatim>\<open>init\<close> has created, in order
  of creation; the field \<^verbatim>\<open>this.worker\<close> refers to the newest one and is \<^verbatim>\<open>null\<close> while
  there is none (\<open>worker\<close> below). The callback is kept as a value of any type \<open>'cb\<close>.
\<close>

record 'cb ChessEngine =
  workers :: "StockfishWorker list"
  onBestMove :: "'cb option"

definition new_ChessEngine :: "'cb ChessEngine" where
  "new_ChessEngine = \<lparr>workers = [], onBestMove = None\<rparr>"

definition worker :: "'cb ChessEngine \<Rightarrow> nat option" where
  "worker e = (if workers e = [] then None else Some (length (workers e) - 1))"

text \<open>The messages the current worker has been sent.\<close>

definition outbox :: "'cb ChessEngine \<Rightarrow> string list" where
  "outbox e = (case worker e of None \<Rightarrow> [] | Some w \<Rightarrow> posted (workers e ! w))"

datatype error = Error string

text \<open>\<^verbatim>\<open>this.worker.postMessage(message)\<close> on the worker \<open>w\<close>.\<close>

definition postMessage :: "nat \<Rightarrow> string \<Rightarrow> 'cb ChessEngine \<Rightarrow> 'cb ChessEngine" where
  "postMessage w message e =
     e\<lparr>workers := (workers e)[w := (workers e ! w)\<lparr>posted := posted (workers e ! w) @ [message]\<rparr>]\<rparr>"

text \<open>Settling a promise: only a pending promise changes.\<close>

definition settle :: "promise \<Rightarrow> nat \<Rightarrow> 'cb ChessEngine \<Rightarrow> 'cb ChessEngine" where
  "settle p w e =
     (if w < length (workers e) \<and> ready (workers e ! w) = Pending
      then e\<lparr>workers := (workers e)[w := (workers e ! w)\<lparr>ready := p\<rparr>]\<rparr>
      else e)"

text \<open>
  \<^verbatim>\<open>init\<close> (Engine.ts, lines 10 to 35): creates the worker, installs the two handlers
  and posts the two commands. The promise it returns is the \<open>ready\<close> field of the new
  worker.

  The constructor \<^verbatim>\<open>new Worker\<close> of line 12 may throw. It does so inside the executor of
  the promise: the promise that \<^verbatim>\<open>init\<close> returns is then rejected for good, the field
  \<^verbatim>\<open>this.worker\<close> is as it was, no handler is installed and nothing is posted. Whether
  the constructor succeeds is the first argument of \<open>init\<close>.
\<close>

definition init :: "bool \<Rightarrow> 'cb ChessEngine \<Rightarrow> 'cb ChessEngine" where
  "init constructed e =
     (if constructed then
        (let e1 = e\<lparr>workers := workers e @ [\<lparr>posted = [], ready = Pending\<rparr>]\<rparr>;
             w = length (workers e);
             e2 = postMessage w ''uci'' e1
         in postMessage w ''isready'' e2)
      else e)"

text \<open>
  The \<^verbatim>\<open>onmessage\<close> handler installed on worker \<open>w\<close> (Engine.ts, lines 14 to 27). It
  returns the engine and, when the callback is invoked, the callback and its argument.
  The guard \<^verbatim>\<open>this.onBestMove && move && move !== '(none)'\<close> is false for a callback that is
  \<^verbatim>\<open>null\<close>, for a token that is \<^verbatim>\<open>undefined\<close> and for the empty token.
\<close>

definition onmessage :: "nat \<Rightarrow> string \<Rightarrow> 'cb ChessEngine \<Rightarrow> 'cb ChessEngine \<times> ('cb \<times> string) option" where
  "onmessage w data e =
     (if data = ''readyok'' then (settle Fulfilled w e, None)
      else if startsWith data ''bestmove'' then
        (let parts = split CHR '' '' data;
             move = index parts 1
         in (case onBestMove e of
               None \<Rightarrow> (e, None)
             | Some cb \<Rightarrow>
                (case move of
                   None \<Rightarrow> (e, None)
                 | Some m \<Rightarrow> if m \<noteq> [] \<and> m \<noteq> ''(none)'' then (e, Some (cb, m)) else (e, None))))
      else (e, None))"

text \<open>The \<^verbatim>\<open>onerror\<close> handler installed on worker \<open>w\<close>: \<^verbatim>\<open>reject\<close>.\<close>

definition onerror :: "nat \<Rightarrow> 'cb ChessEngine \<Rightarrow> 'cb ChessEngine" where
  "onerror w e = settle Rejected w e"

text \<open>
  The text of a \<^verbatim>\<open>go\<close> command (Engine.ts, lines 47 to 49): each part is appended when
  its field is truthy, and an absent field (\<^verbatim>\<open>undefined\<close>) is not.
\<close>

definition go_message :: "number option \<Rightarrow> number option \<Rightarrow> string" where
  "go_message depth movetime =
     (let message = ''go'';
          message = (case depth of
                       None \<Rightarrow> message
                     | Some d \<Rightarrow> if truthy d then message @ '' depth '' @ Number_toString d
                                else message);
          message = (case movetime of
                       None \<Rightarrow> message
                     | Some t \<Rightarrow> if truthy t then message @ '' movetime '' @ Number_toString t
                                else message)
      in message)"

text \<open>The template literal's conversion of \<^verbatim>\<open>cmd.value\<close>, a string or a number.\<close>

fun value_toString :: "string + number \<Rightarrow> string" where
  "value_toString (Inl s) = s"
| "value_toString (Inr n) = Number_toString n"

text \<open>
  \<^verbatim>\<open>postCommand\<close> (Engine.ts, lines 37 to 57): \<open>Inl\<close> is the thrown error, which leaves
  the engine as it was.
\<close>

definition postCommand :: "StockfishCommand \<Rightarrow> 'cb ChessEngine \<Rightarrow> error + 'cb ChessEngine" where
  "postCommand cmd e =
     (case worker e of
        None \<Rightarrow> Inl (Error ''Engine not initialized'')
      | Some w \<Rightarrow>
         (case cmd of
            Str s \<Rightarrow> Inr (postMessage w s e)
          | Position fen \<Rightarrow> Inr (postMessage w (''position fen '' @ fen) e)
          | Go depth movetime \<Rightarrow> Inr (postMessage w (go_message depth movetime) e)
          | SetOption name v \<Rightarrow>
              Inr (postMessage w (''setoption name '' @ name @ '' value '' @ value_toString v) e)
          | Other c \<Rightarrow> Inr e))"

record options =
  depth :: "number option"
  movetime :: "number option"

definition search :: "options \<Rightarrow> 'cb ChessEngine \<Rightarrow> error + 'cb ChessEngine" where
  "search opts e = postCommand (Go (depth opts) (movetime opts)) e"

definition newGame :: "'cb ChessEngine \<Rightarrow> error + 'cb ChessEngine" where
  "newGame e = postCommand (Str ''ucinewgame'') e"

definition setPosition :: "string \<Rightarrow> 'cb ChessEngine \<Rightarrow> error + 'cb ChessEngine" where
  "setPosition fen e = postCommand (Position fen) e"

section \<open>The engine seen from outside: calls and worker events\<close>

text \<open>
  What can happen to an engine object: its methods are called, the callback field is
  assigned, and a worker that \<^verbatim>\<open>init\<close> created emits a message or fails. A thrown
  error leaves the engine as it was. \<open>posts ev\<close> tells the method calls, which may post
  to a worker, from the other events.
\<close>

datatype 'cb event =
    Init bool
  | PostCommand StockfishCommand
  | Search options
  | NewGame
  | SetPosition string
  | SetOnBestMove "'cb option"
  | Message nat string
  | Failure nat

definition unthrown :: "'s \<Rightarrow> error + 's \<Rightarrow> 's" where
  "unthrown s r = (case r of Inl err \<Rightarrow> s | Inr s' \<Rightarrow> s')"

fun step :: "'cb event \<Rightarrow> 'cb ChessEngine \<Rightarrow> 'cb ChessEngine" where
  "step (Init constructed) e = init constructed e"
| "step (PostCommand cmd) e = unthrown e (postCommand cmd e)"
| "step (Search opts) e = unthrown e (search opts e)"
| "step NewGame e = unthrown e (newGame e)"
| "step (SetPosition fen) e = unthrown e (setPosition fen e)"
| "step (SetOnBestMove cb) e = e\<lparr>onBestMove := cb\<rparr>"
| "step (Message w data) e = (if w < length (workers e) then fst (onmessage w data e) else e)"
| "step (Failure w) e = (if w < length (workers e) then onerror w e else e)"

fun posts :: "'cb event \<Rightarrow> bool" where
  "posts (SetOnBestMove cb) = False"
| "posts (Message w data) = False"
| "posts (Failure w) = False"
| "posts ev = True"

definition run :: "'cb event list \<Rightarrow> 'cb ChessEngine \<Rightarrow> 'cb ChessEngine" where
  "run evs e = fold step evs e"

section \<open>What the specification says, in its own words\<close>

text \<open>
  The command forms the specification lists: \<^verbatim>\<open>uci\<close>, \<^verbatim>\<open>isready\<close>, \<^verbatim>\<open>ucinewgame\<close>,
  \<^verbatim>\<open>position fen <fen>\<close>, \<^verbatim>\<open>go [depth N] [movetime M]\<close> and
  \<^verbatim>\<open>setoption name K value V\<close>.
\<close>

definition position_form :: "string \<Rightarrow> bool" where
  "position_form m = (\<exists>fen. m = ''position fen '' @ fen)"

definition go_form :: "string \<Rightarrow> bool" where
  "go_form m =
     (\<exists>d t. m = ''go''
        @ (case d of None \<Rightarrow> [] | Some n \<Rightarrow> '' depth '' @ Number_toString n)
        @ (case t of None \<Rightarrow> [] | Some n \<Rightarrow> '' movetime '' @ Number_toString n))"

definition setoption_form :: "string \<Rightarrow> bool" where
  "setoption_form m = (\<exists>k v. m = ''setoption name '' @ k @ '' value '' @ v)"

definition command_form :: "string \<Rightarrow> bool" where
  "command_form m =
     (m = ''uci'' \<or> m = ''isready'' \<or> m = ''ucinewgame'' \<or> position_form m \<or> go_form m
      \<or> setoption_form m)"

text \<open>
  The \<^verbatim>\<open>go\<close> command as the specification describes it: the depth part exactly when a
  depth is supplied, the movetime part exactly when a movetime is supplied.
\<close>

definition go_spec :: "options \<Rightarrow> string" where
  "go_spec opts = ''go''
     @ (case depth opts of None \<Rightarrow> [] | Some n \<Rightarrow> '' depth '' @ Number_toString n)
     @ (case movetime opts of None \<Rightarrow> [] | Some n \<Rightarrow> '' movetime '' @ Number_toString n)"

text \<open>
  The second space-separated token of a message: the text after the first space, up to
  the next space or the end. A message without a space has none.
\<close>

definition second_token :: "string \<Rightarrow> string option" where
  "second_token m =
     (if CHR '' '' \<in> set m
      then Some (takeWhile (\<lambda>c. c \<noteq> CHR '' '') (tl (dropWhile (\<lambda>c. c \<noteq> CHR '' '') m)))
      else None)"

text \<open>
  The callback invocation as the specification describes it: the message starts with
  \<^verbatim>\<open>bestmove\<close>, its second token exists and is not \<^verbatim>\<open>(none)\<close>, and the callback is set.
\<close>

definition claimed_invocation :: "'cb ChessEngine \<Rightarrow> string \<Rightarrow> ('cb \<times> string) option" where
  "claimed_invocation e m =
     (case (onBestMove e, second_token m) of
        (Some cb, Some t) \<Rightarrow> if startsWith m ''bestmove'' \<and> t \<noteq> ''(none)'' then Some (cb, t) else None
      | _ \<Rightarrow> None)"

text \<open>
  The invariants of the event traces: a worker whose first two messages are \<^verbatim>\<open>uci\<close> and
  \<^verbatim>\<open>isready\<close>, and a worker whose promise is fulfilled.
\<close>

definition greeted :: "StockfishWorker \<Rightarrow> bool" where
  "greeted wk = prefix [''uci'', ''isready''] (posted wk)"

definition fulfilled :: "'cb ChessEngine \<Rightarrow> nat \<Rightarrow> bool" where
  "fulfilled e w = (w < length (workers e) \<and> ready (workers e ! w) = Fulfilled)"

section \<open>Concrete engines and inputs\<close>

definition engine1 :: "unit ChessEngine" where
  "engine1 = init True new_ChessEngine"

definition engine2 :: "unit ChessEngine" where
  "engine2 = engine1\<lparr>onBestMove := Some ()\<rparr>"

definition start_fen :: string where
  "start_fen = ''rnbqkbnr/pppppppp/8/8/8/8/PPPPPPPP/RNBQKBNR w KQkq - 0 1''"

section \<open>chess.js and the page: what main.ts is given\<close>

text \<open>
  The chess rules live in the library chess.js, which is not part of this repository.
  A game object of the library is a value of any type \<open>'g\<close>, and the library is the
  record of the methods that main.ts calls on it. A method that only answers a question
  is a function of the game; a method that changes the game returns the new game.
\<close>

type_synonym Square = string

datatype Color = White | Black

record Piece =
  pcolor :: Color
  ptype :: char

text \<open>A move as the library reports it (\<^verbatim>\<open>verbose: true\<close>): the fields main.ts reads.\<close>

record Move =
  color :: Color
  from_sq :: Square
  to_sq :: Square
  piece :: char
  captured :: "char option"
  promotion :: "string option"

text \<open>
  The argument of \<^verbatim>\<open>game.move\<close>: a move object of the library, or an object made of
  \<^verbatim>\<open>from\<close>, \<^verbatim>\<open>to\<close> and \<^verbatim>\<open>promotion\<close>.
\<close>

datatype move_arg = ByMove Move | FromTo string string "string option"

record 'g Chess =
  newChess :: "'g"
  turn :: "'g \<Rightarrow> Color"
  isGameOver :: "'g \<Rightarrow> bool"
  isCheckmate :: "'g \<Rightarrow> bool"
  isDraw :: "'g \<Rightarrow> bool"
  inCheck :: "'g \<Rightarrow> bool"
  get :: "'g \<Rightarrow> Square \<Rightarrow> Piece option"
  moves :: "'g \<Rightarrow> Square \<Rightarrow> Move list"
  history :: "'g \<Rightarrow> Move list"
  fen :: "'g \<Rightarrow> string"
  move :: "'g \<Rightarrow> move_arg \<Rightarrow> 'g option"
  undo :: "'g \<Rightarrow> 'g"
  reset :: "'g \<Rightarrow> 'g"

text \<open>
  \<open>moves L g sq\<close> is \<^verbatim>\<open>game.moves({square: sq, verbose: true})\<close>; \<open>history L g\<close> is
  \<^verbatim>\<open>game.history({verbose: true})\<close>, as long as \<^verbatim>\<open>game.history()\<close>; \<open>move L g a\<close> is
  \<open>None\<close> when \<^verbatim>\<open>game.move\<close> throws, and the game is then as before; \<open>undo L g\<close> is \<open>g\<close>
  when there is nothing to undo.

  The page supplies what main.ts reads from the document and the browser when it
  starts: the two sliders' values after \<^verbatim>\<open>parseInt\<close>, the text in the status line, and
  the numbers \<^verbatim>\<open>threads\<close> and \<^verbatim>\<open>hash\<close> of the two engine options, which main.ts computes
  from \<^verbatim>\<open>navigator.hardwareConcurrency\<close> in floating point (lines 69 and 73) and which
  are taken here as they are handed to \<^verbatim>\<open>postCommand\<close>.
\<close>

record page =
  difficultyValue :: number
  timeValue :: number
  statusText :: string
  threads :: number
  hash :: number

section \<open>main.ts: the state\<close>

record gameState =
  playerColor :: Color
  aiMode :: string
  aiDepth :: number
  aiTime :: number
  selectedSquare :: "Square option"
  possibleMoves :: "Move list"
  isAiThinking :: bool
  aiStartTime :: nat
  isBoardRotated :: bool

text \<open>
  The click handler of a square element: one of the two closures that
  \<^verbatim>\<open>createSquareElement\<close> installs.
\<close>

datatype handler = HandleMove Move | HandleSquareClick Square

text \<open>
  A child of a square element. The text of a piece is the code point of its symbol in
  \<^verbatim>\<open>PIECES\<close>, \<open>None\<close> when the table has no such key.
\<close>

datatype child = RankLabel string | FileLabel string | PieceSpan "nat option" string

record SquareEl =
  className :: "string list"
  dataset_square :: Square
  children :: "child list"
  onclick :: handler

text \<open>An entry of the history panel: the parts that \<^verbatim>\<open>renderHistory\<close> puts into its markup.\<close>

record MoveEl =
  moveClass :: string
  moveNumber :: nat
  pieceClass :: string
  pieceIcon :: "nat option"
  fromTo :: string
  captureIcon :: "nat option option"

text \<open>
  Everything main.ts holds: the game, the engine, \<^verbatim>\<open>gameState\<close>, the children of the
  board element, the status line, the history panel, and the number of timeouts set by
  \<^verbatim>\<open>makeAiMove\<close> that have not fired yet. The modal dialog and the colours of the two
  buttons are presentation only and are left out.
\<close>

record 'g app =
  game :: "'g"
  engine :: "unit ChessEngine"
  gameState :: gameState
  board :: "SquareEl list"
  status :: string
  historyPanel :: "MoveEl list"
  timers :: nat

text \<open>The table \<^verbatim>\<open>PIECES\<close>, its symbols as code points.\<close>

definition PIECES :: "char \<Rightarrow> nat option" where
  "PIECES k =
     map_of [(CHR ''p'', 9823), (CHR ''n'', 9822), (CHR ''b'', 9821), (CHR ''r'', 9820),
             (CHR ''q'', 9819), (CHR ''k'', 9818), (CHR ''P'', 9817), (CHR ''N'', 9816),
             (CHR ''B'', 9815), (CHR ''R'', 9814), (CHR ''Q'', 9813), (CHR ''K'', 9812)] k"

definition toUpperCase :: "char \<Rightarrow> char" where
  "toUpperCase c =
     (let n = (of_char c :: nat) in if 97 \<le> n \<and> n \<le> 122 then char_of (n - 32) else c)"

text \<open>\<^verbatim>\<open>String.fromCharCode\<close>, and \<^verbatim>\<open>s.substring(a, b)\<close> for \<open>a \<le> b\<close>.\<close>

definition fromCharCode :: "nat \<Rightarrow> string" where
  "fromCharCode n = [char_of n]"

definition substring :: "string \<Rightarrow> nat \<Rightarrow> nat \<Rightarrow> string" where
  "substring s a b = take (b - a) (drop a s)"

text \<open>\<^verbatim>\<open>xs.find(p)\<close>.\<close>

fun find_first :: "('a \<Rightarrow> bool) \<Rightarrow> 'a list \<Rightarrow> 'a option" where
  "find_first p [] = None"
| "find_first p (x # xs) = (if p x then Some x else find_first p xs)"

section \<open>main.ts: rendering\<close>

text \<open>
  \<^verbatim>\<open>createSquareElement\<close> (main.ts, lines 156 to 214). The class list, the children and
  the click handler are built in the order of the source; a label is added when it is
  truthy, that is, present and not empty.
\<close>

definition createSquareElement ::
  "'g Chess \<Rightarrow> 'g app \<Rightarrow> Square \<Rightarrow> bool \<Rightarrow> Piece option \<Rightarrow> Move option
     \<Rightarrow> string option \<Rightarrow> string option \<Rightarrow> SquareEl" where
  "createSquareElement L s sq isLight pc lastMove rankLabel fileLabel =
     (let classes = [''square'', if isLight then ''light'' else ''dark''];
          kids = [];
          kids = (case rankLabel of
                    None \<Rightarrow> kids
                  | Some l \<Rightarrow> if l \<noteq> [] then kids @ [RankLabel l] else kids);
          kids = (case fileLabel of
                    None \<Rightarrow> kids
                  | Some l \<Rightarrow> if l \<noteq> [] then kids @ [FileLabel l] else kids);
          classes = (if selectedSquare (gameState s) = Some sq
                     then classes @ [''selected''] else classes);
          classes = (case lastMove of
                       None \<Rightarrow> classes
                     | Some lm \<Rightarrow> if from_sq lm = sq \<or> to_sq lm = sq
                                 then classes @ [''last-move''] else classes);
          mv = find_first (\<lambda>m. to_sq m = sq) (possibleMoves (gameState s));
          classes = (case mv of None \<Rightarrow> classes | Some m \<Rightarrow> classes @ [''possible-move'']);
          click = (case mv of None \<Rightarrow> HandleSquareClick sq | Some m \<Rightarrow> HandleMove m);
          kids = (case pc of
                    None \<Rightarrow> kids
                  | Some p \<Rightarrow>
                      kids @ [PieceSpan
                        (PIECES (if pcolor p = White then toUpperCase (ptype p) else ptype p))
                        (if pcolor p = White then ''piece-white'' else ''piece-black'')]);
          classes = (case pc of
                       None \<Rightarrow> classes
                     | Some p \<Rightarrow> if inCheck L (game s) \<and> ptype p = CHR ''k''
                                    \<and> pcolor p = turn L (game s)
                                 then classes @ [''check''] else classes)
      in \<lparr>className = classes, dataset_square = sq, children = kids, onclick = click\<rparr>)"

text \<open>
  The body of the two nested loops of \<^verbatim>\<open>renderBoard\<close> (main.ts, lines 132 to 144): the
  element of the cell \<open>(r, c)\<close>.
\<close>

definition cell :: "'g Chess \<Rightarrow> 'g app \<Rightarrow> bool \<Rightarrow> Move option \<Rightarrow> nat \<Rightarrow> nat \<Rightarrow> SquareEl" where
  "cell L s isFlipped lastMove r c =
     (let row = (if isFlipped then 7 - r else r);
          col = (if isFlipped then 7 - c else c);
          sq = fromCharCode (97 + col) @ Number_toString (Num (safe (8 - int row)));
          pc = get L (game s) sq;
          isLight = ((row + col) mod 2 = 0);
          rankLabel = (if c = 0 then Some (Number_toString (Num (safe (8 - int row)))) else None);
          fileLabel = (if r = 7 then Some (fromCharCode (97 + col)) else None)
      in createSquareElement L s sq isLight pc lastMove rankLabel fileLabel)"

text \<open>The square of the cell \<open>(r, c)\<close>, as \<open>cell\<close> computes it.\<close>

definition square_name :: "bool \<Rightarrow> nat \<Rightarrow> nat \<Rightarrow> Square" where
  "square_name isFlipped r c =
     fromCharCode (97 + (if isFlipped then 7 - c else c))
       @ Number_toString (Num (safe (8 - int (if isFlipped then 7 - r else r))))"

text \<open>
  \<^verbatim>\<open>renderBoard\<close> (main.ts, lines 118 to 150): the two loops append one element per cell
  to the fragment; the
  fragment then replaces the children of the board.
\<close>

definition renderBoard :: "'g Chess \<Rightarrow> 'g app \<Rightarrow> 'g app" where
  "renderBoard L s =
     (let isFlipped = (if isBoardRotated (gameState s)
                       then playerColor (gameState s) = White
                       else playerColor (gameState s) = Black);
          hist = history L (game s);
          lastMove = (if length hist > 0 then Some (hist ! (length hist - 1)) else None);
          fragment =
            fold (\<lambda>r fragment.
                    fold (\<lambda>c fragment. fragment @ [cell L s isFlipped lastMove r c]) [0..<8] fragment)
              [0..<8] []
      in s\<lparr>board := fragment\<rparr>)"

text \<open>\<^verbatim>\<open>updateStatus\<close> (main.ts, lines 220 to 237).\<close>

definition updateStatus :: "'g Chess \<Rightarrow> 'g app \<Rightarrow> 'g app" where
  "updateStatus L s =
     (if isGameOver L (game s) then
        (if isCheckmate L (game s) then
           s\<lparr>status := ''Checkmate! '' @ (if turn L (game s) = White then ''Black'' else ''White'')
                          @ '' wins.''\<rparr>
         else if isDraw L (game s) then s\<lparr>status := ''Draw!''\<rparr>
         else s\<lparr>status := ''Game Over''\<rparr>)
      else if isAiThinking (gameState s) then s\<lparr>status := ''AI is thinking...''\<rparr>
      else s\<lparr>status := (if turn L (game s) = playerColor (gameState s)
                          then ''Your Turn'' else ''AI Turn'')\<rparr>)"

text \<open>
  \<^verbatim>\<open>renderHistory\<close> (main.ts, lines 243 to 273): one entry per move of the history, and
  \<^verbatim>\<open>updateUI\<close> (lines 108 to 112).
\<close>

definition historyEntry :: "nat \<Rightarrow> Move \<Rightarrow> MoveEl" where
  "historyEntry i m =
     \<lparr>moveClass = ''history-move '' @ (if i mod 2 = 0 then ''white'' else ''black''),
      moveNumber = i div 2 + 1,
      pieceClass = (if color m = White then ''piece-white'' else ''piece-black''),
      pieceIcon = PIECES (if color m = White then toUpperCase (piece m) else piece m),
      fromTo = from_sq m @ '' to '' @ to_sq m,
      captureIcon = (case captured m of
                       None \<Rightarrow> None
                     | Some k \<Rightarrow> Some (PIECES (if color m = White then k else toUpperCase k)))\<rparr>"

definition renderHistory :: "'g Chess \<Rightarrow> 'g app \<Rightarrow> 'g app" where
  "renderHistory L s =
     s\<lparr>historyPanel := map (\<lambda>(i, m). historyEntry i m) (enumerate 0 (history L (game s)))\<rparr>"

definition updateUI :: "'g Chess \<Rightarrow> 'g app \<Rightarrow> 'g app" where
  "updateUI L s = updateStatus L (renderHistory L (renderBoard L s))"

section \<open>main.ts: the handlers\<close>

text \<open>
  A handler that may throw returns the state it leaves and the error it ended with, if
  it threw: what it did before throwing stays done.

  \<^verbatim>\<open>handleSquareClick\<close> (main.ts, lines 279 to 305). The test \<^verbatim>\<open>gameState.selectedSquare\<close>
  of its last branch is the truthiness of a string or \<^verbatim>\<open>null\<close>.
\<close>

definition handleSquareClick :: "'g Chess \<Rightarrow> Square \<Rightarrow> 'g app \<Rightarrow> 'g app" where
  "handleSquareClick L sq s =
     (if isAiThinking (gameState s) \<or> isGameOver L (game s) then s
      else if turn L (game s) \<noteq> playerColor (gameState s) then s
      else
        (let pc = get L (game s) sq in
         if (case pc of None \<Rightarrow> False | Some p \<Rightarrow> pcolor p = playerColor (gameState s)) then
           (if selectedSquare (gameState s) = Some sq
            then renderBoard L
                   (s\<lparr>gameState := (gameState s)\<lparr>selectedSquare := None, possibleMoves := []\<rparr>\<rparr>)
            else renderBoard L
                   (s\<lparr>gameState := (gameState s)\<lparr>selectedSquare := Some sq,
                                                   possibleMoves := moves L (game s) sq\<rparr>\<rparr>))
         else if (case selectedSquare (gameState s) of None \<Rightarrow> False | Some q \<Rightarrow> q \<noteq> []) then
           renderBoard L
             (s\<lparr>gameState := (gameState s)\<lparr>selectedSquare := None, possibleMoves := []\<rparr>\<rparr>)
         else s))"

text \<open>
  \<^verbatim>\<open>makeAiMove\<close> (main.ts, lines 328 to 344): marks the engine as thinking, updates the
  status line and sets the timeout.
\<close>

definition makeAiMove :: "'g Chess \<Rightarrow> 'g app \<Rightarrow> 'g app" where
  "makeAiMove L s =
     (let s1 = updateStatus L (s\<lparr>gameState := (gameState s)\<lparr>isAiThinking := True\<rparr>\<rparr>)
      in s1\<lparr>timers := timers s1 + 1\<rparr>)"

text \<open>
  The function that the timeout of \<^verbatim>\<open>makeAiMove\<close> runs (main.ts, lines 334 to 343);
  \<open>now\<close> is \<^verbatim>\<open>Date.now()\<close>.
\<close>

definition aiTimeout :: "'g Chess \<Rightarrow> nat \<Rightarrow> 'g app \<Rightarrow> 'g app \<times> error option" where
  "aiTimeout L now s =
     (case setPosition (fen L (game s)) (engine s) of
        Inl err \<Rightarrow> (s, Some err)
      | Inr e1 \<Rightarrow>
         (let s1 = s\<lparr>engine := e1, gameState := (gameState s)\<lparr>aiStartTime := now\<rparr>\<rparr> in
          if aiMode (gameState s1) = ''depth'' then
            (case search \<lparr>depth = Some (aiDepth (gameState s1)), movetime = None\<rparr> (engine s1) of
               Inl err \<Rightarrow> (s1, Some err)
             | Inr e2 \<Rightarrow> (s1\<lparr>engine := e2\<rparr>, None))
          else
            (case search \<lparr>depth = None, movetime = Some (aiTime (gameState s1))\<rparr> (engine s1) of
               Inl err \<Rightarrow> (s1, Some err)
             | Inr e2 \<Rightarrow> (s1\<lparr>engine := e2\<rparr>, None))))"

text \<open>
  \<^verbatim>\<open>handleMove\<close> (main.ts, lines 311 to 322): the move object goes to \<^verbatim>\<open>game.move\<close> as it
  is; when the library throws, nothing has been done. \<^verbatim>\<open>startNewGame\<close> (lines 350 to 362).
\<close>

definition handleMove :: "'g Chess \<Rightarrow> Move \<Rightarrow> 'g app \<Rightarrow> 'g app \<times> error option" where
  "handleMove L m s =
     (case move L (game s) (ByMove m) of
        None \<Rightarrow> (s, Some (Error ''Invalid move''))
      | Some g \<Rightarrow>
         (let s1 = s\<lparr>game := g\<rparr>;
              s2 = s1\<lparr>gameState := (gameState s1)\<lparr>selectedSquare := None, possibleMoves := []\<rparr>\<rparr>;
              s3 = updateUI L s2
          in if \<not> isGameOver L (game s3) then (makeAiMove L s3, None) else (s3, None)))"

definition startNewGame :: "'g Chess \<Rightarrow> 'g app \<Rightarrow> 'g app \<times> error option" where
  "startNewGame L s =
     (let s1 = s\<lparr>game := reset L (game s)\<rparr> in
      case newGame (engine s1) of
        Inl err \<Rightarrow> (s1, Some err)
      | Inr e1 \<Rightarrow>
         (let s2 = s1\<lparr>engine := e1,
                     gameState := (gameState s1)\<lparr>selectedSquare := None, possibleMoves := [],
                                                  isAiThinking := False\<rparr>\<rparr>;
              s3 = (if playerColor (gameState s2) = Black then makeAiMove L s2 else s2)
          in (updateUI L s3, None)))"

text \<open>
  The callback that \<^verbatim>\<open>init\<close> assigns to \<^verbatim>\<open>engine.onBestMove\<close> (main.ts, lines 79 to 95);
  a move that the library refuses is caught and logged.
\<close>

definition bestMove :: "'g Chess \<Rightarrow> string \<Rightarrow> 'g app \<Rightarrow> 'g app" where
  "bestMove L moveStr s =
     (let s1 = s\<lparr>gameState := (gameState s)\<lparr>isAiThinking := False\<rparr>\<rparr>;
          from = substring moveStr 0 2;
          to = substring moveStr 2 4;
          promo = (if length moveStr > 4 then Some (substring moveStr 4 5) else None)
      in case move L (game s1) (FromTo from to promo) of
           None \<Rightarrow> s1
         | Some g \<Rightarrow> updateUI L (s1\<lparr>game := g\<rparr>))"

text \<open>
  \<^verbatim>\<open>init\<close> of main.ts (lines 62 to 102) after its \<^verbatim>\<open>await\<close>: the two options, the
  callback, the first rendering; and its \<^verbatim>\<open>catch\<close>.
\<close>

definition initFailed :: "'g app \<Rightarrow> 'g app" where
  "initFailed s = s\<lparr>status := ''Error loading engine''\<rparr>"

definition initResumed :: "'g Chess \<Rightarrow> page \<Rightarrow> 'g app \<Rightarrow> 'g app" where
  "initResumed L P s =
     (case postCommand (SetOption ''Threads'' (Inr (threads P))) (engine s) of
        Inl err \<Rightarrow> initFailed s
      | Inr e1 \<Rightarrow>
         (case postCommand (SetOption ''Hash'' (Inr (hash P))) e1 of
            Inl err \<Rightarrow> initFailed (s\<lparr>engine := e1\<rparr>)
          | Inr e2 \<Rightarrow> updateUI L (s\<lparr>engine := e2\<lparr>onBestMove := Some ()\<rparr>\<rparr>)))"

text \<open>
  The \<^verbatim>\<open>await\<close> in \<^verbatim>\<open>init\<close>: main.ts waits for the promise of the first worker, and
  resumes when a message has taken that promise from pending to fulfilled.
\<close>

definition awaitInit :: "'g Chess \<Rightarrow> page \<Rightarrow> nat \<Rightarrow> promise \<Rightarrow> 'g app \<Rightarrow> 'g app" where
  "awaitInit L P w before s =
     (if w = 0 \<and> before = Pending \<and> ready (workers (engine s) ! w) = Fulfilled
      then initResumed L P s else s)"

text \<open>
  The click handlers of the undo button (main.ts, lines 451 to 470) and of the rotate
  button (lines 473 to 476).
\<close>

definition undoClick :: "'g Chess \<Rightarrow> 'g app \<Rightarrow> 'g app" where
  "undoClick L s =
     (if isAiThinking (gameState s) then s
      else
        (let s1 = s\<lparr>game := undo L (game s)\<rparr>;
             s2 = (if turn L (game s1) \<noteq> playerColor (gameState s1)
                      \<and> length (history L (game s1)) > 0
                   then s1\<lparr>game := undo L (game s1)\<rparr> else s1);
             s3 = s2\<lparr>gameState := (gameState s2)\<lparr>selectedSquare := None, possibleMoves := []\<rparr>\<rparr>;
             s4 = updateUI L s3
         in if turn L (game s4) \<noteq> playerColor (gameState s4) \<and> \<not> isGameOver L (game s4)
            then makeAiMove L s4 else s4))"

definition rotateClick :: "'g Chess \<Rightarrow> 'g app \<Rightarrow> 'g app" where
  "rotateClick L s =
     renderBoard L
       (s\<lparr>gameState := (gameState s)\<lparr>isBoardRotated := \<not> isBoardRotated (gameState s)\<rparr>\<rparr>)"

text \<open>
  The click handlers of the two colour buttons (main.ts, lines 419 to 440), from the
  point where the player has confirmed or no confirmation was needed.
\<close>

definition playAs :: "'g Chess \<Rightarrow> Color \<Rightarrow> 'g app \<Rightarrow> 'g app \<times> error option" where
  "playAs L c s = startNewGame L (s\<lparr>gameState := (gameState s)\<lparr>playerColor := c\<rparr>\<rparr>)"

section \<open>main.ts: the page as a whole\<close>

text \<open>
  The state when the script has run to its end. \<^verbatim>\<open>init\<close> of main.ts has called
  \<^verbatim>\<open>engine.init\<close>: when the worker was constructed it waits for the promise; when the
  constructor threw, the promise is rejected and the \<^verbatim>\<open>catch\<close> of \<^verbatim>\<open>init\<close> has written
  the status line. The board and the history panel of the document are taken to be
  empty until they are rendered.
\<close>

definition app0 :: "'g Chess \<Rightarrow> page \<Rightarrow> bool \<Rightarrow> 'g app" where
  "app0 L P constructed =
     \<lparr>game = newChess L,
      engine = init constructed new_ChessEngine,
      gameState = \<lparr>playerColor = White, aiMode = ''depth'', aiDepth = difficultyValue P,
                   aiTime = timeValue P, selectedSquare = None, possibleMoves = [],
                   isAiThinking = False, aiStartTime = 0, isBoardRotated = False\<rparr>,
      board = [],
      status = (if constructed then statusText P else ''Error loading engine''),
      historyPanel = [],
      timers = 0\<rparr>"

text \<open>What happens on the page: the user's actions, a timeout that fires, a worker event.\<close>

datatype ui_event =
    Click nat
  | AiModeChange string
  | DifficultyInput number
  | TimeInput number
  | PlayAs Color
  | UndoClick
  | RotateClick
  | Timeout nat
  | WorkerMessage nat string
  | WorkerError nat

text \<open>
  A click on the \<open>n\<close>-th child of the board runs the handler installed on it. A worker
  message runs the engine's handler; if that fulfils the promise \<^verbatim>\<open>init\<close> waits for,
  \<^verbatim>\<open>init\<close> resumes; if it invokes the callback, the callback runs. An error that a
  handler throws is reported by the browser and the state stays as the handler left it.
\<close>

definition dispatch :: "'g Chess \<Rightarrow> page \<Rightarrow> ui_event \<Rightarrow> 'g app \<Rightarrow> 'g app" where
  "dispatch L P ev s =
     (case ev of
        Click n \<Rightarrow>
          (if n < length (board s) then
             (case onclick (board s ! n) of
                HandleMove m \<Rightarrow> fst (handleMove L m s)
              | HandleSquareClick sq \<Rightarrow> handleSquareClick L sq s)
           else s)
      | AiModeChange v \<Rightarrow> s\<lparr>gameState := (gameState s)\<lparr>aiMode := v\<rparr>\<rparr>
      | DifficultyInput v \<Rightarrow> s\<lparr>gameState := (gameState s)\<lparr>aiDepth := v\<rparr>\<rparr>
      | TimeInput v \<Rightarrow> s\<lparr>gameState := (gameState s)\<lparr>aiTime := v\<rparr>\<rparr>
      | PlayAs c \<Rightarrow> fst (playAs L c s)
      | UndoClick \<Rightarrow> undoClick L s
      | RotateClick \<Rightarrow> rotateClick L s
      | Timeout now \<Rightarrow>
          (if timers s > 0 then fst (aiTimeout L now (s\<lparr>timers := timers s - 1\<rparr>)) else s)
      | WorkerMessage w data \<Rightarrow>
          (if w < length (workers (engine s)) then
             (let (e1, call) = onmessage w data (engine s);
                  s1 = s\<lparr>engine := e1\<rparr>;
                  s2 = awaitInit L P w (ready (workers (engine s) ! w)) s1
              in case call of
                   None \<Rightarrow> s2
                 | Some (cb, moveStr) \<Rightarrow> bestMove L moveStr s2)
           else s)
      | WorkerError w \<Rightarrow>
          (if w < length (workers (engine s)) then
             (let s1 = s\<lparr>engine := onerror w (engine s)\<rparr>
              in if w = 0 \<and> ready (workers (engine s) ! w) = Pending then initFailed s1 else s1)
           else s))"

definition play :: "'g Chess \<Rightarrow> page \<Rightarrow> bool \<Rightarrow> ui_event list \<Rightarrow> 'g app" where
  "play L P constructed evs = fold (dispatch L P) evs (app0 L P constructed)"

section \<open>What the specification says about main.ts, in its own words\<close>

text \<open>The 64 squares \<^verbatim>\<open>a1\<close> to \<^verbatim>\<open>h8\<close>.\<close>

definition all_squares :: "Square list" where
  "all_squares = concat (map (\<lambda>rank. map (\<lambda>file. [file, rank]) ''abcdefgh'') ''12345678'')"



section \<open>Invariants of the page\<close>

text \<open>
  Every move that a click handler of the board would hand to \<^verbatim>\<open>handleMove\<close> is in the
  given list of moves.
\<close>

definition handlers_ok_on :: "SquareEl list \<Rightarrow> Move list \<Rightarrow> bool" where
  "handlers_ok_on b pm = (\<forall>el \<in> set b. \<forall>m. onclick el = HandleMove m \<longrightarrow> m \<in> set pm)"

definition handlers_ok :: "'g app \<Rightarrow> bool" where
  "handlers_ok s = handlers_ok_on (board s) (possibleMoves (gameState s))"

text \<open>The selection: the selected square and the moves stored for it.\<close>

definition selection :: "'g app \<Rightarrow> Square option \<times> Move list" where
  "selection s = (selectedSquare (gameState s), possibleMoves (gameState s))"

text \<open>
  What one event may do to the selection: leave it, clear it, or set it to a square
  and the library's list of moves for that square in the game as it is.
\<close>

definition selection_step :: "'g Chess \<Rightarrow> 'g app \<Rightarrow> 'g app \<Rightarrow> bool" where
  "selection_step L s s' =
     (selection s' = selection s \<or> selection s' = (None, [])
      \<or> (\<exists>sq. selection s' = (Some sq, moves L (game s) sq)))"

section \<open>A small library and page for concrete instances\<close>

text \<open>
  A stand-in for chess.js with four pawn moves, used only to run the page on concrete
  inputs: a game is the list of the moves made; White may open with the e-pawn, Black
  may answer with the e-pawn, and nothing else is legal.
\<close>

definition e2e3 :: Move where
  "e2e3 = \<lparr>color = White, from_sq = ''e2'', to_sq = ''e3'', piece = CHR ''p'', captured = None,
           promotion = None\<rparr>"

definition e2e4 :: Move where
  "e2e4 = \<lparr>color = White, from_sq = ''e2'', to_sq = ''e4'', piece = CHR ''p'', captured = None,
           promotion = None\<rparr>"

definition e7e6 :: Move where
  "e7e6 = \<lparr>color = Black, from_sq = ''e7'', to_sq = ''e6'', piece = CHR ''p'', captured = None,
           promotion = None\<rparr>"

definition e7e5 :: Move where
  "e7e5 = \<lparr>color = Black, from_sq = ''e7'', to_sq = ''e5'', piece = CHR ''p'', captured = None,
           promotion = None\<rparr>"

definition demo_moves :: "Move list \<Rightarrow> Square \<Rightarrow> Move list" where
  "demo_moves g sq =
     (if g = [] \<and> sq = ''e2'' then [e2e3, e2e4]
      else if length g = 1 \<and> sq = ''e7'' then [e7e6, e7e5]
      else [])"

definition demo_move :: "Move list \<Rightarrow> move_arg \<Rightarrow> Move list option" where
  "demo_move g a =
     (let legal = demo_moves g ''e2'' @ demo_moves g ''e7'' in
      case a of
        ByMove m \<Rightarrow> if m \<in> set legal then Some (g @ [m]) else None
      | FromTo f t p \<Rightarrow>
          (case find_first (\<lambda>m. from_sq m = f \<and> to_sq m = t \<and> p = None) legal of
             None \<Rightarrow> None
           | Some m \<Rightarrow> Some (g @ [m])))"

definition demo_chess :: "Move list Chess" where
  "demo_chess =
     \<lparr>newChess = [],
      turn = (\<lambda>g. if even (length g) then White else Black),
      isGameOver = (\<lambda>g. False),
      isCheckmate = (\<lambda>g. False),
      isDraw = (\<lambda>g. False),
      inCheck = (\<lambda>g. False),
      get = (\<lambda>g sq. if g = [] \<and> sq = ''e2'' then Some \<lparr>pcolor = White, ptype = CHR ''p''\<rparr>
                     else if sq = ''e7'' then Some \<lparr>pcolor = Black, ptype = CHR ''p''\<rparr>
                     else None),
      moves = demo_moves,
      history = (\<lambda>g. g),
      fen = (\<lambda>g. if g = [] then start_fen else ''after '' @ concat (map to_sq g)),
      move = demo_move,
      undo = butlast,
      reset = (\<lambda>g. [])\<rparr>"

definition demo_page :: page where
  "demo_page =
     \<lparr>difficultyValue = Num (safe 12), timeValue = Num (safe 1500), statusText = ''Loading...'',
      threads = Double ''1.6'', hash = Double ''102.4''\<rparr>"


definition e2_selected :: "ui_event list" where
  "e2_selected = [WorkerMessage 0 ''readyok'', Click 52]"


section \<open>The engine: basic facts\<close>

lemma worker_Some: "worker e = Some w \<Longrightarrow> w < length (workers e)"
  by (auto simp: worker_def split: if_splits)

lemma worker_None: "(worker e = None) = (workers e = [])"
  by (simp add: worker_def)

lemma engine1_eq:
  "engine1 = \<lparr>workers = [\<lparr>posted = [''uci'', ''isready''], ready = Pending\<rparr>], onBestMove = None\<rparr>"
  by (simp add: engine1_def new_ChessEngine_def init_def postMessage_def Let_def)

lemma worker_engine1: "worker engine1 = Some 0"
  by (simp add: engine1_eq worker_def)

lemma workers_postMessage:
  "workers (postMessage w m e) = (workers e)[w := (workers e ! w)\<lparr>posted := posted (workers e ! w) @ [m]\<rparr>]"
  by (simp add: postMessage_def)

lemma onBestMove_postMessage: "onBestMove (postMessage w m e) = onBestMove e"
  by (simp add: postMessage_def)

lemma length_postMessage: "length (workers (postMessage w m e)) = length (workers e)"
  by (simp add: postMessage_def)

lemma length_settle: "length (workers (settle p w e)) = length (workers e)"
  by (simp add: settle_def)

lemma workers_init:
  "workers (init True e) = workers e @ [\<lparr>posted = [''uci'', ''isready''], ready = Pending\<rparr>]"
  by (simp add: init_def Let_def postMessage_def)

lemma init_False: "init False e = e"
  by (simp add: init_def)

lemma length_init: "length (workers (init True e)) = Suc (length (workers e))"
  by (simp add: init_def Let_def length_postMessage)

lemma length_init_le: "length (workers e) \<le> length (workers (init c e))"
  by (cases c) (simp_all add: length_init init_False)

lemma length_postCommand:
  "postCommand cmd e = Inr e' \<Longrightarrow> length (workers e') = length (workers e)"
  by (auto simp: postCommand_def length_postMessage split: option.splits StockfishCommand.splits)

lemma fst_onmessage:
  "fst (onmessage w m e) = (if m = ''readyok'' then settle Fulfilled w e else e)"
  by (simp add: onmessage_def Let_def split: option.splits)

lemma nth_update_field:
  "f (xs[i := x] ! j) = (if i = j \<and> i < length xs then f x else f (xs ! j))"
  by (cases "i < length xs") (auto simp: nth_list_update not_less list_update_beyond)

lemma list_all_update:
  assumes "list_all P xs" and "i < length xs \<Longrightarrow> P x"
  shows "list_all P (xs[i := x])"
proof (cases "i < length xs")
  case True
  with assms show ?thesis
    by (auto simp: list_all_length nth_list_update)
next
  case False
  with assms show ?thesis by (simp add: not_less list_update_beyond)
qed

lemma outbox_postMessage:
  "worker e = Some w \<Longrightarrow> outbox (postMessage w m e) = outbox e @ [m]"
  by (auto simp: worker_def outbox_def postMessage_def split: if_splits)

lemma posted_postMessage:
  "w < length (workers e) \<Longrightarrow>
   map posted (workers (postMessage w m e)) = (map posted (workers e))[w := posted (workers e ! w) @ [m]]"
  by (simp add: postMessage_def map_update)

lemma ready_postMessage: "map ready (workers (postMessage w m e)) = map ready (workers e)"
  by (rule nth_equalityI) (simp_all add: postMessage_def nth_update_field [where f = ready])

lemma sends_exactly:
  assumes "worker e = Some w"
  shows "outbox (postMessage w m e) = outbox e @ [m]
     \<and> map posted (workers (postMessage w m e)) = (map posted (workers e))[w := posted (workers e ! w) @ [m]]
     \<and> map ready (workers (postMessage w m e)) = map ready (workers e)
     \<and> onBestMove (postMessage w m e) = onBestMove e"
  using assms
  by (simp add: outbox_postMessage posted_postMessage worker_Some ready_postMessage onBestMove_postMessage)

subsection \<open>Numbers\<close>

lemma int_of_safe:
  "- 9007199254740991 \<le> n \<Longrightarrow> n \<le> 9007199254740991 \<Longrightarrow> int_of (safe n) = n"
  by (simp add: safe_inverse)

lemma int_of_zero: "(int_of k = 0) = (k = safe 0)"
proof
  assume "int_of k = 0"
  then have "safe (int_of k) = safe 0" by simp
  then show "k = safe 0" by (simp add: int_of_inverse)
next
  assume "k = safe 0"
  then show "int_of k = 0" by (simp add: int_of_safe)
qed

lemma truthy_iff: "truthy n = (\<not> (n = Num (safe 0) \<or> n = NaN))"
  by (cases n) (simp_all add: int_of_zero)

lemma Number_toString_12_1500:
  "Number_toString (Num (safe 0)) = ''0''" "Number_toString (Num (safe 12)) = ''12''"
  "Number_toString (Num (safe 1500)) = ''1500''"
  by (simp_all add: int_of_safe digits.simps digit_def)

subsection \<open>Splitting a message\<close>

lemma split_unfold:
  "split sep m = takeWhile (\<lambda>c. c \<noteq> sep) m #
     (if sep \<in> set m then split sep (tl (dropWhile (\<lambda>c. c \<noteq> sep) m)) else [])"
  by (induction m) (auto split: list.splits)

lemma split_hd: "\<exists>ps. split sep m = takeWhile (\<lambda>c. c \<noteq> sep) m # ps"
  using split_unfold [of sep m] by auto

lemma index_split: "index (split CHR '' '' m) 1 = second_token m"
proof (cases "CHR '' '' \<in> set m")
  case True
  obtain ps where "split CHR '' '' (tl (dropWhile (\<lambda>c. c \<noteq> CHR '' '') m)) =
     takeWhile (\<lambda>c. c \<noteq> CHR '' '') (tl (dropWhile (\<lambda>c. c \<noteq> CHR '' '') m)) # ps"
    using split_hd by blast
  with True show ?thesis
    using split_unfold [of "CHR '' ''" m] by (simp add: index_def second_token_def)
next
  case False
  then show ?thesis
    using split_unfold [of "CHR '' ''" m] by (simp add: index_def second_token_def)
qed

lemma index_split_Suc: "index (split CHR '' '' m) (Suc 0) = second_token m"
  using index_split [of m] by simp

subsection \<open>Traces\<close>

lemma length_step: "length (workers e) \<le> length (workers (step ev e))"
proof (cases ev)
  case (Init c)
  then show ?thesis by (simp add: length_init_le)
next
  case (PostCommand cmd)
  then show ?thesis
    by (cases "postCommand cmd e") (simp_all add: unthrown_def length_postCommand)
next
  case (Search opts)
  then show ?thesis
    by (cases "postCommand (Go (depth opts) (movetime opts)) e")
       (simp_all add: unthrown_def search_def length_postCommand)
next
  case NewGame
  then show ?thesis
    by (cases "postCommand (Str ''ucinewgame'') e")
       (simp_all add: unthrown_def newGame_def length_postCommand)
next
  case (SetPosition fen)
  then show ?thesis
    by (cases "postCommand (Position fen) e")
       (simp_all add: unthrown_def setPosition_def length_postCommand)
next
  case (SetOnBestMove cb)
  then show ?thesis by simp
next
  case (Message w m)
  then show ?thesis by (simp add: fst_onmessage length_settle)
next
  case (Failure w)
  then show ?thesis by (simp add: onerror_def length_settle)
qed

lemma run_Nil: "run [] e = e"
  by (simp add: run_def)

lemma run_snoc: "run (evs @ [ev]) e = step ev (run evs e)"
  by (simp add: run_def)

lemma run_append: "run (xs @ ys) e = run ys (run xs e)"
  by (simp add: run_def)

lemma length_run: "length (workers e) \<le> length (workers (run evs e))"
proof (induction evs rule: rev_induct)
  case Nil
  then show ?case by (simp add: run_Nil)
next
  case (snoc ev evs)
  then show ?case
    using length_step [of "run evs e" ev] by (simp add: run_snoc)
qed

lemma initialized_after_Init:
  assumes "Init True \<in> set evs"
  shows "workers (run evs e) \<noteq> []"
proof -
  from assms obtain xs ys where "evs = xs @ Init True # ys"
    by (auto simp: in_set_conv_decomp)
  then have "run evs e = run ys (init True (run xs e))"
    by (simp add: run_def)
  moreover have "0 < length (workers (init True (run xs e)))"
    by (simp add: length_init)
  ultimately show ?thesis
    using length_run [of "init True (run xs e)" ys] by auto
qed

lemma greeted_append: "greeted wk \<Longrightarrow> greeted (wk\<lparr>posted := posted wk @ [m]\<rparr>)"
  by (simp add: greeted_def)

lemma greeted_ready: "greeted (wk\<lparr>ready := p\<rparr>) = greeted wk"
  by (simp add: greeted_def)

lemma greeted_postMessage:
  "list_all greeted (workers e) \<Longrightarrow> list_all greeted (workers (postMessage w m e))"
  unfolding workers_postMessage
  by (rule list_all_update) (simp_all add: list_all_length greeted_append)

lemma greeted_settle:
  "list_all greeted (workers e) \<Longrightarrow> list_all greeted (workers (settle p w e))"
proof (cases "w < length (workers e) \<and> ready (workers e ! w) = Pending")
  case True
  assume all: "list_all greeted (workers e)"
  then have "list_all greeted ((workers e)[w := (workers e ! w)\<lparr>ready := p\<rparr>])"
    using True by (intro list_all_update) (simp_all add: list_all_length greeted_ready)
  with True show ?thesis by (simp add: settle_def)
next
  case False
  assume "list_all greeted (workers e)"
  with False show ?thesis by (auto simp: settle_def)
qed

lemma greeted_init:
  "list_all greeted (workers e) \<Longrightarrow> list_all greeted (workers (init c e))"
  by (cases c) (simp_all add: workers_init init_False greeted_def)

lemma greeted_postCommand:
  "list_all greeted (workers e) \<Longrightarrow> list_all greeted (workers (unthrown e (postCommand cmd e)))"
  by (auto simp: postCommand_def unthrown_def greeted_postMessage split: option.splits StockfishCommand.splits)

lemma greeted_step:
  "list_all greeted (workers e) \<Longrightarrow> list_all greeted (workers (step ev e))"
  by (cases ev)
     (simp_all add: greeted_init greeted_postCommand search_def newGame_def setPosition_def
        fst_onmessage greeted_settle onerror_def)

lemma greeted_run:
  "list_all greeted (workers e) \<Longrightarrow> list_all greeted (workers (run evs e))"
  by (induction evs rule: rev_induct) (simp_all add: run_Nil run_snoc greeted_step)

lemma fulfilled_postMessage: "fulfilled (postMessage v m e) w = fulfilled e w"
  by (simp add: fulfilled_def workers_postMessage nth_update_field [where f = ready])

lemma fulfilled_postCommand: "fulfilled (unthrown e (postCommand cmd e)) w = fulfilled e w"
  by (auto simp: postCommand_def unthrown_def fulfilled_postMessage split: option.splits StockfishCommand.splits)

lemma fulfilled_init: "fulfilled (init c e) w = fulfilled e w"
  by (cases c) (auto simp: fulfilled_def workers_init init_False nth_append)

lemma fulfilled_settle:
  "fulfilled (settle p v e) w = (fulfilled e w \<or> (p = Fulfilled \<and> v = w \<and> w < length (workers e) \<and> ready (workers e ! w) = Pending))"
  by (auto simp: fulfilled_def settle_def nth_update_field [where f = ready])

lemma fulfilled_step:
  "fulfilled (step ev e) w \<Longrightarrow> fulfilled e w \<or> (ev = Message w ''readyok'' \<and> w < length (workers e))"
  by (cases ev)
     (auto simp: fulfilled_init fulfilled_postCommand search_def newGame_def setPosition_def
        fst_onmessage fulfilled_settle onerror_def split: if_splits, simp_all add: fulfilled_def)

lemma fulfilled_run:
  "fulfilled (run evs new_ChessEngine) w \<Longrightarrow>
     \<exists>pre post. evs = pre @ Message w ''readyok'' # post \<and> w < length (workers (run pre new_ChessEngine))"
proof (induction evs rule: rev_induct)
  case Nil
  then show ?case by (simp add: run_Nil fulfilled_def new_ChessEngine_def)
next
  case (snoc ev evs)
  from snoc.prems have "fulfilled (step ev (run evs new_ChessEngine)) w"
    by (simp add: run_snoc)
  then consider "fulfilled (run evs new_ChessEngine) w"
    | "ev = Message w ''readyok''" "w < length (workers (run evs new_ChessEngine))"
    using fulfilled_step by blast
  then show ?case
  proof cases
    case 1
    with snoc.IH obtain pre post where
      "evs = pre @ Message w ''readyok'' # post" "w < length (workers (run pre new_ChessEngine))"
      by blast
    then have "evs @ [ev] = pre @ Message w ''readyok'' # (post @ [ev])" by simp
    with \<open>w < length (workers (run pre new_ChessEngine))\<close> show ?thesis by blast
  next
    case 2
    then have "evs @ [ev] = evs @ Message w ''readyok'' # []" by simp
    with 2 show ?thesis by blast
  qed
qed

lemma posted_settle: "map posted (workers (settle p w e)) = map posted (workers e)"
  by (simp add: settle_def map_update list_update_same_conv)

lemma posted_quiet_step:
  "\<not> posts ev \<Longrightarrow> map posted (workers (step ev e)) = map posted (workers e)"
  by (cases ev) (simp_all add: fst_onmessage posted_settle onerror_def)

lemma posted_quiet_run:
  "\<forall>ev \<in> set evs. \<not> posts ev \<Longrightarrow> map posted (workers (run evs e)) = map posted (workers e)"
  by (induction evs rule: rev_induct) (simp_all add: run_Nil run_snoc posted_quiet_step)

subsection \<open>The command forms\<close>

lemma go_form_go_message: "go_form (go_message d t)"
proof -
  let ?d = "case d of None \<Rightarrow> None | Some n \<Rightarrow> if truthy n then Some n else None"
  let ?t = "case t of None \<Rightarrow> None | Some n \<Rightarrow> if truthy n then Some n else None"
  have "go_message d t = ''go''
        @ (case ?d of None \<Rightarrow> [] | Some n \<Rightarrow> '' depth '' @ Number_toString n)
        @ (case ?t of None \<Rightarrow> [] | Some n \<Rightarrow> '' movetime '' @ Number_toString n)"
    by (cases d; cases t) (simp_all add: go_message_def)
  then show ?thesis unfolding go_form_def by blast
qed

section \<open>Claims about the engine wrapper\<close>

text \<open>
  C1 (as amended). On an initialized engine, every command of the declared type
  \<^verbatim>\<open>StockfishCommand\<close> posts exactly one message, and that message is \<^verbatim>\<open>quit\<close> or has one
  of the forms the specification lists; an object command whose \<^verbatim>\<open>cmd\<close> field is none
  of \<^verbatim>\<open>position\<close>, \<^verbatim>\<open>go\<close>, \<^verbatim>\<open>setoption\<close> posts nothing.
\<close>

theorem postCommand_command_forms:
  assumes "worker e = Some w"
  shows "(is_StockfishCommand cmd \<longrightarrow>
            (\<exists>m. postCommand cmd e = Inr (postMessage w m e) \<and> (m = ''quit'' \<or> command_form m)))
         \<and> postCommand (Other c) e = Inr e"
proof -
  have other: "postCommand (Other c) e = Inr e"
    using assms by (simp add: postCommand_def)
  have typed: "\<exists>m. postCommand cmd e = Inr (postMessage w m e) \<and> (m = ''quit'' \<or> command_form m)"
    if "is_StockfishCommand cmd"
  proof (cases cmd)
    case (Str s)
    with assms that show ?thesis
      by (auto simp: postCommand_def command_form_def)
  next
    case (Position fen)
    have "position_form (''position fen '' @ fen)"
      unfolding position_form_def by blast
    moreover have "postCommand cmd e = Inr (postMessage w (''position fen '' @ fen) e)"
      using assms Position by (simp add: postCommand_def)
    ultimately show ?thesis
      unfolding command_form_def by blast
  next
    case (Go d t)
    have "postCommand cmd e = Inr (postMessage w (go_message d t) e)"
      using assms Go by (simp add: postCommand_def)
    then show ?thesis
      using go_form_go_message [of d t] unfolding command_form_def by blast
  next
    case (SetOption k v)
    have "setoption_form (''setoption name '' @ k @ '' value '' @ value_toString v)"
      unfolding setoption_form_def by blast
    moreover have "postCommand cmd e =
        Inr (postMessage w (''setoption name '' @ k @ '' value '' @ value_toString v) e)"
      using assms SetOption by (simp add: postCommand_def)
    ultimately show ?thesis
      unfolding command_form_def by blast
  next
    case (Other x)
    with that show ?thesis by simp
  qed
  from other typed show ?thesis by blast
qed

text \<open>A \<^verbatim>\<open>go\<close> command with depth 12 on a freshly initialized engine.\<close>

theorem postCommand_command_forms_witness:
  "worker engine1 = Some 0 \<and> is_StockfishCommand (Go (Some (Num (safe 12))) None)
   \<and> postCommand (Go (Some (Num (safe 12))) None) engine1 = Inr (postMessage 0 ''go depth 12'' engine1)
   \<and> command_form ''go depth 12''"
proof -
  have m: "go_message (Some (Num (safe 12))) None = ''go depth 12''"
    by (simp add: go_message_def int_of_safe digits.simps digit_def)
  have t: "is_StockfishCommand (Go (Some (Num (safe 12))) None)"
    by simp
  from postCommand_command_forms [OF worker_engine1, of "Go (Some (Num (safe 12))) None", THEN conjunct1] t
  have "\<exists>m. postCommand (Go (Some (Num (safe 12))) None) engine1 = Inr (postMessage 0 m engine1)
          \<and> (m = ''quit'' \<or> command_form m)"
    by (rule mp)
  then obtain m where p: "postCommand (Go (Some (Num (safe 12))) None) engine1 = Inr (postMessage 0 m engine1)"
    and f: "m = ''quit'' \<or> command_form m"
    by (elim exE conjE)
  have q: "postCommand (Go (Some (Num (safe 12))) None) engine1 = Inr (postMessage 0 ''go depth 12'' engine1)"
    by (simp add: postCommand_def worker_engine1 m)
  have "postMessage 0 m engine1 = postMessage 0 ''go depth 12'' engine1 \<Longrightarrow> m = ''go depth 12''"
    by (simp add: postMessage_def engine1_eq)
  with p q have "m = ''go depth 12''"
    by simp
  with f have "command_form ''go depth 12''"
    by simp
  with q t worker_engine1 show ?thesis
    by (intro conjI)
qed

text \<open>
  The claim as stated fails at the command \<^verbatim>\<open>'quit'\<close>, which the type declares: it is
  posted, and it has none of the listed forms.
\<close>

theorem quit_counterexample:
  "is_StockfishCommand (Str ''quit'')
   \<and> postCommand (Str ''quit'') engine1 = Inr (postMessage 0 ''quit'' engine1)
   \<and> outbox (postMessage 0 ''quit'' engine1) = [''uci'', ''isready'', ''quit'']
   \<and> \<not> command_form ''quit''"
  by (simp add: postCommand_def worker_engine1 outbox_def worker_def postMessage_def engine1_eq
      command_form_def position_form_def go_form_def setoption_form_def)

text \<open>
  C2. On an initialized engine \<^verbatim>\<open>setPosition(f)\<close>, which is
  \<^verbatim>\<open>postCommand({cmd: 'position', fen: f})\<close>, does not throw and sends the current worker
  exactly the string \<^verbatim>\<open>position fen\<close>, a space and \<open>f\<close>: that one message is appended to
  what the worker has been sent, no other worker is sent anything, and neither a promise
  nor the callback changes.
\<close>

theorem setPosition_sends:
  assumes "worker e = Some w"
  shows "\<exists>e'. setPosition f e = Inr e'
          \<and> outbox e' = outbox e @ [''position fen '' @ f]
          \<and> map posted (workers e') =
              (map posted (workers e))[w := posted (workers e ! w) @ [''position fen '' @ f]]
          \<and> map ready (workers e') = map ready (workers e)
          \<and> onBestMove e' = onBestMove e
          \<and> postCommand (Position f) e = Inr e'"
proof -
  have "setPosition f e = Inr (postMessage w (''position fen '' @ f) e)"
    using assms by (simp add: setPosition_def postCommand_def)
  then show ?thesis
    using sends_exactly [OF assms, of "''position fen '' @ f"]
    by (simp add: setPosition_def)
qed

text \<open>The start position on a freshly initialized engine.\<close>

theorem setPosition_sends_witness:
  "worker engine1 = Some 0
   \<and> (\<exists>e'. setPosition start_fen engine1 = Inr e'
        \<and> outbox e' = [''uci'', ''isready'', ''position fen '' @ start_fen])"
proof -
  have "outbox engine1 = [''uci'', ''isready'']"
    by (simp add: outbox_def worker_engine1) (simp add: engine1_eq)
  then show ?thesis
    using setPosition_sends [OF worker_engine1, of start_fen] worker_engine1 by auto
qed

text \<open>
  C3 (as amended). For every options record, whatever numbers it holds, \<^verbatim>\<open>search(options)\<close>
  on an initialized engine does not throw and sends the current worker one message:
  \<^verbatim>\<open>go\<close>, followed by \<^verbatim>\<open>depth N\<close> exactly when a depth \<open>N\<close> is supplied that is neither \<open>0\<close>
  nor \<open>NaN\<close>, followed by \<^verbatim>\<open>movetime M\<close> exactly when a movetime \<open>M\<close> is supplied that is
  neither \<open>0\<close> nor \<open>NaN\<close>, the depth before the movetime; \<open>N\<close> and \<open>M\<close> are the texts that
  JavaScript prints for the two numbers.
\<close>

theorem search_sends:
  assumes "worker e = Some w"
  shows "\<exists>e' message. search opts e = Inr e'
          \<and> message = ''go''
              @ (case depth opts of
                   None \<Rightarrow> []
                 | Some n \<Rightarrow> if n = Num (safe 0) \<or> n = NaN then []
                            else '' depth '' @ Number_toString n)
              @ (case movetime opts of
                   None \<Rightarrow> []
                 | Some n \<Rightarrow> if n = Num (safe 0) \<or> n = NaN then []
                            else '' movetime '' @ Number_toString n)
          \<and> outbox e' = outbox e @ [message]
          \<and> map posted (workers e') = (map posted (workers e))[w := posted (workers e ! w) @ [message]]
          \<and> map ready (workers e') = map ready (workers e)
          \<and> onBestMove e' = onBestMove e"
proof -
  define message where "message = ''go''
              @ (case depth opts of
                   None \<Rightarrow> []
                 | Some n \<Rightarrow> if n = Num (safe 0) \<or> n = NaN then []
                            else '' depth '' @ Number_toString n)
              @ (case movetime opts of
                   None \<Rightarrow> []
                 | Some n \<Rightarrow> if n = Num (safe 0) \<or> n = NaN then []
                            else '' movetime '' @ Number_toString n)"
  have "go_message (depth opts) (movetime opts) = message"
    unfolding message_def
    by (cases "depth opts"; cases "movetime opts") (simp_all add: go_message_def truthy_iff)
  then have "search opts e = Inr (postMessage w message e)"
    using assms by (simp add: search_def postCommand_def)
  then show ?thesis
    using sends_exactly [OF assms, of message] message_def by blast
qed

text \<open>
  Depth 12 and movetime 1500 on a freshly initialized engine; and the depth \<^verbatim>\<open>1e21\<close>
  with the movetime \<^verbatim>\<open>2.5\<close>, which JavaScript prints as \<^verbatim>\<open>1e+21\<close> and \<^verbatim>\<open>2.5\<close>.
\<close>

theorem search_sends_witness:
  "worker engine1 = Some 0
   \<and> (\<exists>e'. search \<lparr>depth = Some (Num (safe 12)), movetime = Some (Num (safe 1500))\<rparr> engine1 = Inr e'
        \<and> outbox e' = [''uci'', ''isready'', ''go depth 12 movetime 1500''])
   \<and> (\<exists>e'. search \<lparr>depth = Some (Double ''1e+21''), movetime = Some (Double ''2.5'')\<rparr> engine1 = Inr e'
        \<and> outbox e' = [''uci'', ''isready'', ''go depth 1e+21 movetime 2.5''])"
proof -
  have o: "outbox engine1 = [''uci'', ''isready'']"
    by (simp add: outbox_def worker_engine1) (simp add: engine1_eq)
  have z: "Num (safe 12) \<noteq> Num (safe 0)" "Num (safe 1500) \<noteq> Num (safe 0)"
    using truthy_iff [of "Num (safe 12)"] truthy_iff [of "Num (safe 1500)"]
    by (simp_all add: int_of_safe)
  have a: "\<exists>e'. search \<lparr>depth = Some (Num (safe 12)), movetime = Some (Num (safe 1500))\<rparr> engine1 = Inr e'
        \<and> outbox e' = [''uci'', ''isready'', ''go depth 12 movetime 1500'']"
    using search_sends [OF worker_engine1, of "\<lparr>depth = Some (Num (safe 12)), movetime = Some (Num (safe 1500))\<rparr>"]
      o z Number_toString_12_1500
    by auto
  have b: "\<exists>e'. search \<lparr>depth = Some (Double ''1e+21''), movetime = Some (Double ''2.5'')\<rparr> engine1 = Inr e'
        \<and> outbox e' = [''uci'', ''isready'', ''go depth 1e+21 movetime 2.5'']"
    using search_sends [OF worker_engine1, of "\<lparr>depth = Some (Double ''1e+21''), movetime = Some (Double ''2.5'')\<rparr>"]
      o
    by auto
  from worker_engine1 a b show ?thesis
    by (intro conjI)
qed

text \<open>
  The claim as stated fails at \<^verbatim>\<open>search({depth: 0})\<close>: a depth is supplied, the
  specification's shape is \<^verbatim>\<open>go depth 0\<close>, and the message sent is \<^verbatim>\<open>go\<close>.
\<close>

theorem search_depth_zero_counterexample:
  "worker engine1 = Some 0
   \<and> search \<lparr>depth = Some (Num (safe 0)), movetime = None\<rparr> engine1 = Inr (postMessage 0 ''go'' engine1)
   \<and> outbox (postMessage 0 ''go'' engine1) = [''uci'', ''isready'', ''go'']
   \<and> go_spec \<lparr>depth = Some (Num (safe 0)), movetime = None\<rparr> = ''go depth 0''"
  by (simp add: search_def postCommand_def worker_engine1 go_message_def go_spec_def
      int_of_safe digits.simps digit_def outbox_def worker_def postMessage_def engine1_eq)

text \<open>
  C4 (as amended). For every message \<open>m\<close> that a worker emits, the handler invokes the
  callback \<open>cb\<close> with the argument \<open>t\<close> if and only if \<open>m\<close> starts with \<^verbatim>\<open>bestmove\<close>, \<open>t\<close> is
  the second space-separated token of \<open>m\<close>, \<open>t\<close> is not empty and not \<^verbatim>\<open>(none)\<close>, and \<open>cb\<close>
  is the callback that is set. The argument has no space in it: a ponder part is
  discarded.
\<close>

theorem onmessage_invokes_onBestMove:
  "((snd (onmessage w m e) = Some (cb, t)) =
      (startsWith m ''bestmove'' \<and> second_token m = Some t \<and> t \<noteq> [] \<and> t \<noteq> ''(none)''
       \<and> onBestMove e = Some cb))
   \<and> (snd (onmessage w m e) = Some (cb, t) \<longrightarrow> CHR '' '' \<notin> set t)"
proof -
  have iff: "(snd (onmessage w m e) = Some (cb, t)) =
      (startsWith m ''bestmove'' \<and> second_token m = Some t \<and> t \<noteq> [] \<and> t \<noteq> ''(none)''
       \<and> onBestMove e = Some cb)"
    by (auto simp: onmessage_def index_split_Suc Let_def startsWith_def split: option.splits)
  have "CHR '' '' \<notin> set t" if "second_token m = Some t"
    using that by (auto simp: second_token_def split: if_splits dest: set_takeWhileD)
  with iff show ?thesis by blast
qed

text \<open>The message of the comment in the source: \<^verbatim>\<open>bestmove d7d5 ponder c2c4\<close>.\<close>

theorem onmessage_invokes_onBestMove_witness:
  "snd (onmessage 0 ''bestmove d7d5 ponder c2c4'' engine2) = Some ((), ''d7d5'')
   \<and> second_token ''bestmove d7d5 ponder c2c4'' = Some ''d7d5''
   \<and> CHR '' '' \<notin> set ''d7d5''"
proof -
  have s: "second_token ''bestmove d7d5 ponder c2c4'' = Some ''d7d5''"
    by (simp add: second_token_def)
  have "startsWith ''bestmove d7d5 ponder c2c4'' ''bestmove'' \<and> onBestMove engine2 = Some ()"
    by (simp add: startsWith_def engine2_def)
  with s have c: "snd (onmessage 0 ''bestmove d7d5 ponder c2c4'' engine2) = Some ((), ''d7d5'')"
    using onmessage_invokes_onBestMove
      [of 0 "''bestmove d7d5 ponder c2c4''" engine2 "()" "''d7d5''", THEN conjunct1]
    by simp
  with onmessage_invokes_onBestMove
      [of 0 "''bestmove d7d5 ponder c2c4''" engine2 "()" "''d7d5''", THEN conjunct2]
  have "CHR '' '' \<notin> set ''d7d5''"
    by (rule mp)
  with c s show ?thesis by (intro conjI)
qed

text \<open>
  The claim as stated fails at \<^verbatim>\<open>bestmove\<close> followed by two spaces and \<^verbatim>\<open>e2e4\<close>: the
  message starts with \<^verbatim>\<open>bestmove\<close>, its second space-separated token exists (it is the
  empty string between the two spaces) and is not \<^verbatim>\<open>(none)\<close>, the callback is set, and the
  callback is not invoked.
\<close>

theorem double_space_counterexample:
  "claimed_invocation engine2 ''bestmove  e2e4'' = Some ((), [])
   \<and> snd (onmessage 0 ''bestmove  e2e4'' engine2) = None
   \<and> split CHR '' '' ''bestmove  e2e4'' = [''bestmove'', [], ''e2e4'']"
  by (simp add: claimed_invocation_def engine2_def second_token_def startsWith_def
      onmessage_def index_def)

text \<open>
  C8 (as amended). \<^verbatim>\<open>postCommand\<close> throws the error \<^verbatim>\<open>Engine not initialized\<close> if and only
  if the worker is \<^verbatim>\<open>null\<close>; it throws no other error; when it throws, nothing is sent
  and the engine is as before. An \<^verbatim>\<open>init\<close> whose \<^verbatim>\<open>new Worker\<close> throws leaves the engine
  as it was, the worker \<^verbatim>\<open>null\<close> if it was. After an \<^verbatim>\<open>init\<close> that has created the worker,
  and after anything that happens once such an \<^verbatim>\<open>init\<close> has run, \<^verbatim>\<open>postCommand\<close> does not
  throw.
\<close>

theorem postCommand_throws_iff_no_worker:
  "(postCommand cmd e = Inl (Error ''Engine not initialized'')) = (worker e = None)
   \<and> (\<forall>err. postCommand cmd e = Inl err \<longrightarrow> err = Error ''Engine not initialized'')
   \<and> (worker e = None \<longrightarrow> step (PostCommand cmd) e = e)
   \<and> init False e = e
   \<and> (\<exists>e'. postCommand cmd (init True e) = Inr e')
   \<and> (Init True \<in> set evs \<longrightarrow> (\<exists>e'. postCommand cmd (run evs e) = Inr e'))"
proof -
  have a: "(postCommand cmd e = Inl (Error ''Engine not initialized'')) = (worker e = None)"
    by (auto simp: postCommand_def split: option.splits StockfishCommand.splits)
  have b: "\<forall>err. postCommand cmd e = Inl err \<longrightarrow> err = Error ''Engine not initialized''"
    by (auto simp: postCommand_def split: option.splits StockfishCommand.splits)
  have c: "worker e = None \<longrightarrow> step (PostCommand cmd) e = e"
    by (simp add: postCommand_def unthrown_def)
  have i: "\<exists>e'. postCommand cmd x = Inr e'" if "workers x \<noteq> []" for x :: "'a ChessEngine"
    using that by (auto simp: postCommand_def worker_def split: StockfishCommand.splits)
  have d: "\<exists>e'. postCommand cmd (init True e) = Inr e'"
    by (rule i) (simp add: workers_init)
  have e: "Init True \<in> set evs \<longrightarrow> (\<exists>e'. postCommand cmd (run evs e) = Inr e')"
    using i initialized_after_Init by blast
  from a b c init_False [of e] d e show ?thesis
    by (intro conjI)
qed

text \<open>A new engine throws; after an \<^verbatim>\<open>init\<close> that created the worker it does not.\<close>

theorem postCommand_throws_iff_no_worker_witness:
  "postCommand (Str ''uci'') (new_ChessEngine :: unit ChessEngine) = Inl (Error ''Engine not initialized'')
   \<and> worker (new_ChessEngine :: unit ChessEngine) = None
   \<and> step (PostCommand (Str ''uci'')) (new_ChessEngine :: unit ChessEngine) = new_ChessEngine
   \<and> Init True \<in> set [Init True, Message 0 ''readyok'' :: unit event]
   \<and> (\<exists>e'. postCommand (Str ''uci'') (run [Init True, Message 0 ''readyok''] (new_ChessEngine :: unit ChessEngine)) = Inr e')"
proof -
  note t = postCommand_throws_iff_no_worker
    [of "Str ''uci''" "new_ChessEngine :: unit ChessEngine" "[Init True, Message 0 ''readyok'']"]
  have n: "worker (new_ChessEngine :: unit ChessEngine) = None"
    by (simp add: worker_def new_ChessEngine_def)
  have i: "Init True \<in> set [Init True, Message 0 ''readyok'' :: unit event]"
    by simp
  from t [THEN conjunct1] n
  have p: "postCommand (Str ''uci'') (new_ChessEngine :: unit ChessEngine) = Inl (Error ''Engine not initialized'')"
    by (rule iffD2)
  from t [THEN conjunct2, THEN conjunct2, THEN conjunct1] n
  have q: "step (PostCommand (Str ''uci'')) (new_ChessEngine :: unit ChessEngine) = new_ChessEngine"
    by (rule mp)
  from t [THEN conjunct2, THEN conjunct2, THEN conjunct2, THEN conjunct2, THEN conjunct2] i
  have r: "\<exists>e'. postCommand (Str ''uci'') (run [Init True, Message 0 ''readyok''] (new_ChessEngine :: unit ChessEngine)) = Inr e'"
    by (rule mp)
  from p n q i r show ?thesis
    by (intro conjI)
qed

text \<open>
  The claim as stated fails when the constructor of the worker throws: \<^verbatim>\<open>init\<close> has
  run, the worker is still \<^verbatim>\<open>null\<close>, and \<^verbatim>\<open>postCommand\<close> throws.
\<close>

theorem init_without_worker_counterexample:
  "worker (run [Init False] (new_ChessEngine :: unit ChessEngine)) = None
   \<and> postCommand (Str ''uci'') (run [Init False] (new_ChessEngine :: unit ChessEngine))
       = Inl (Error ''Engine not initialized'')"
  by (simp add: run_def init_False postCommand_def worker_def new_ChessEngine_def)

text \<open>
  C10 (as amended). \<^verbatim>\<open>init\<close> creates one worker and posts to it exactly \<^verbatim>\<open>uci\<close> and then
  \<^verbatim>\<open>isready\<close>, and the promise it returns is pending; when the constructor throws it
  posts nothing and the engine is as before. As long as no other method of the engine
  is called, whatever the workers emit, these two stay the only messages the new worker
  has been sent. In every state an engine reaches from \<^verbatim>\<open>new ChessEngine()\<close>, whatever is
  called and whatever the workers emit, the messages sent to any worker begin with
  \<^verbatim>\<open>uci\<close>, \<^verbatim>\<open>isready\<close>, so no command reaches a worker before these two; and a promise
  returned by \<^verbatim>\<open>init\<close> is fulfilled only if its worker, already created and already sent
  \<^verbatim>\<open>uci\<close> and \<^verbatim>\<open>isready\<close>, has emitted \<^verbatim>\<open>readyok\<close>.
\<close>

theorem init_posts_uci_isready_first:
  fixes e :: "'cb ChessEngine" and evs :: "'cb event list"
  shows "workers (init True e) = workers e @ [\<lparr>posted = [''uci'', ''isready''], ready = Pending\<rparr>]
   \<and> outbox (init True e) = [''uci'', ''isready'']
   \<and> init False e = e
   \<and> ((\<forall>ev \<in> set evs. \<not> posts ev) \<longrightarrow>
        map posted (workers (run evs (init True e))) = map posted (workers e) @ [[''uci'', ''isready'']])
   \<and> (\<forall>w < length (workers (run evs new_ChessEngine)).
        prefix [''uci'', ''isready''] (posted (workers (run evs new_ChessEngine) ! w))
        \<and> (ready (workers (run evs new_ChessEngine) ! w) = Fulfilled \<longrightarrow>
             (\<exists>pre post. evs = pre @ Message w ''readyok'' # post
                \<and> w < length (workers (run pre new_ChessEngine))
                \<and> prefix [''uci'', ''isready''] (posted (workers (run pre new_ChessEngine) ! w)))))"
proof -
  have g: "list_all greeted (workers (run xs (new_ChessEngine :: 'cb ChessEngine)))" for xs
    by (rule greeted_run) (simp add: new_ChessEngine_def)
  have p: "prefix [''uci'', ''isready''] (posted (workers (run xs (new_ChessEngine :: 'cb ChessEngine)) ! w))"
    if "w < length (workers (run xs (new_ChessEngine :: 'cb ChessEngine)))" for xs w
    using g [of xs] that by (simp add: list_all_length greeted_def)
  have o: "outbox (init True e) = [''uci'', ''isready'']"
    by (simp add: outbox_def worker_def workers_init)
  have q: "(\<forall>ev \<in> set evs. \<not> posts ev) \<longrightarrow>
        map posted (workers (run evs (init True e))) = map posted (workers e) @ [[''uci'', ''isready'']]"
    by (simp add: posted_quiet_run workers_init)
  have f: "\<exists>pre post. evs = pre @ Message w ''readyok'' # post
                \<and> w < length (workers (run pre new_ChessEngine))
                \<and> prefix [''uci'', ''isready''] (posted (workers (run pre new_ChessEngine) ! w))"
    if "w < length (workers (run evs (new_ChessEngine :: 'cb ChessEngine)))"
      and "ready (workers (run evs (new_ChessEngine :: 'cb ChessEngine)) ! w) = Fulfilled" for w
  proof -
    from that have "fulfilled (run evs (new_ChessEngine :: 'cb ChessEngine)) w"
      by (simp add: fulfilled_def)
    then obtain pre post where "evs = pre @ Message w ''readyok'' # post"
      and "w < length (workers (run pre (new_ChessEngine :: 'cb ChessEngine)))"
      using fulfilled_run by blast
    then show ?thesis using p by blast
  qed
  have all: "\<forall>w < length (workers (run evs new_ChessEngine)).
        prefix [''uci'', ''isready''] (posted (workers (run evs new_ChessEngine) ! w))
        \<and> (ready (workers (run evs new_ChessEngine) ! w) = Fulfilled \<longrightarrow>
             (\<exists>pre post. evs = pre @ Message w ''readyok'' # post
                \<and> w < length (workers (run pre new_ChessEngine))
                \<and> prefix [''uci'', ''isready''] (posted (workers (run pre new_ChessEngine) ! w))))"
    using p f by blast
  from workers_init [of e] o init_False [of e] q all show ?thesis
    by (intro conjI)
qed

text \<open>
  Two traces. In the first the worker's \<^verbatim>\<open>readyok\<close> is all that happens after \<^verbatim>\<open>init\<close>:
  the worker has been sent \<^verbatim>\<open>uci\<close>, \<^verbatim>\<open>isready\<close> and nothing else. In the second a
  position is set while the promise is pending: the messages of the worker begin with
  \<^verbatim>\<open>uci\<close>, \<^verbatim>\<open>isready\<close>, and the promise is fulfilled by the \<^verbatim>\<open>readyok\<close> that ends the
  trace.
\<close>

theorem init_posts_uci_isready_first_witness:
  "map posted (workers (run [Message 0 ''readyok''] (init True (new_ChessEngine :: unit ChessEngine))))
     = [[''uci'', ''isready'']]
   \<and> workers (run [Init True, SetPosition start_fen, Message 0 ''readyok''] (new_ChessEngine :: unit ChessEngine))
     = [\<lparr>posted = [''uci'', ''isready'', ''position fen '' @ start_fen], ready = Fulfilled\<rparr>]
   \<and> (\<exists>pre post. [Init True, SetPosition start_fen, Message 0 ''readyok'' :: unit event]
          = pre @ Message 0 ''readyok'' # post
        \<and> 0 < length (workers (run pre (new_ChessEngine :: unit ChessEngine))))"
proof -
  note t = init_posts_uci_isready_first
  let ?evs = "[Init True, SetPosition start_fen, Message 0 ''readyok''] :: unit event list"
  have "\<forall>ev \<in> set [Message 0 ''readyok'' :: unit event]. \<not> posts ev"
    by simp
  with t [of "new_ChessEngine :: unit ChessEngine" "[Message 0 ''readyok'']",
      THEN conjunct2, THEN conjunct2, THEN conjunct2, THEN conjunct1]
  have "map posted (workers (run [Message 0 ''readyok''] (init True (new_ChessEngine :: unit ChessEngine))))
     = map posted (workers (new_ChessEngine :: unit ChessEngine)) @ [[''uci'', ''isready'']]"
    by (rule mp)
  then have q: "map posted (workers (run [Message 0 ''readyok''] (init True (new_ChessEngine :: unit ChessEngine))))
     = [[''uci'', ''isready'']]"
    by (simp add: new_ChessEngine_def)
  have r: "workers (run ?evs (new_ChessEngine :: unit ChessEngine))
     = [\<lparr>posted = [''uci'', ''isready'', ''position fen '' @ start_fen], ready = Fulfilled\<rparr>]"
    by (simp add: run_def new_ChessEngine_def init_def postMessage_def Let_def setPosition_def
        postCommand_def worker_def unthrown_def onmessage_def settle_def)
  have "\<forall>w < length (workers (run ?evs (new_ChessEngine :: unit ChessEngine))).
        ready (workers (run ?evs (new_ChessEngine :: unit ChessEngine)) ! w) = Fulfilled \<longrightarrow>
             (\<exists>pre post. ?evs = pre @ Message w ''readyok'' # post
                \<and> w < length (workers (run pre (new_ChessEngine :: unit ChessEngine))))"
    using t [of "new_ChessEngine :: unit ChessEngine" ?evs]
    by blast
  from this [rule_format, of 0] r
  have "\<exists>pre post. ?evs = pre @ Message 0 ''readyok'' # post
        \<and> 0 < length (workers (run pre (new_ChessEngine :: unit ChessEngine)))"
    by simp
  with q r show ?thesis
    by (intro conjI)
qed

text \<open>
  The claim as stated fails when another method is called while the promise is
  pending: after \<^verbatim>\<open>init\<close> and \<^verbatim>\<open>newGame\<close> the promise is still pending and the worker has
  been sent three commands, not exactly the two; the \<^verbatim>\<open>readyok\<close> that follows fulfils
  the promise.
\<close>

theorem newGame_before_readyok_counterexample:
  "workers (run [Init True, NewGame] (new_ChessEngine :: unit ChessEngine))
     = [\<lparr>posted = [''uci'', ''isready'', ''ucinewgame''], ready = Pending\<rparr>]
   \<and> workers (run [Init True, NewGame, Message 0 ''readyok''] (new_ChessEngine :: unit ChessEngine))
     = [\<lparr>posted = [''uci'', ''isready'', ''ucinewgame''], ready = Fulfilled\<rparr>]
   \<and> [''uci'', ''isready'', ''ucinewgame''] \<noteq> [''uci'', ''isready'']"
  by (simp add: run_def new_ChessEngine_def init_def postMessage_def Let_def newGame_def
      postCommand_def worker_def unthrown_def onmessage_def settle_def)

section \<open>Facts about rendering\<close>

lemma fold_snoc: "fold (\<lambda>x acc. acc @ [f x]) xs acc = acc @ map f xs"
  by (induction xs arbitrary: acc) simp_all

lemma fold_fold_snoc:
  "fold (\<lambda>r acc. fold (\<lambda>c acc. acc @ [f r c]) cs acc) rs acc
     = acc @ concat (map (\<lambda>r. map (f r) cs) rs)"
  by (induction rs arbitrary: acc) (simp_all add: fold_snoc)

lemma board_renderBoard:
  "board (renderBoard L s) =
     concat (map (\<lambda>r. map (cell L s
        (if isBoardRotated (gameState s) then playerColor (gameState s) = White
         else playerColor (gameState s) = Black)
        (if length (history L (game s)) > 0
         then Some (history L (game s) ! (length (history L (game s)) - 1)) else None) r) [0..<8]) [0..<8])"
  by (simp add: renderBoard_def Let_def fold_fold_snoc)

lemma dataset_square_createSquareElement:
  "dataset_square (createSquareElement L s sq isLight pc lastMove rankLabel fileLabel) = sq"
  by (simp add: createSquareElement_def Let_def)

lemma dataset_square_cell: "dataset_square (cell L s fl lm r c) = square_name fl r c"
  by (simp add: cell_def Let_def dataset_square_createSquareElement square_name_def)

lemma upt8: "[0..<8] = [0,1,2,3,4,5,6,7]"
  by (simp add: upt_rec)

lemma char_of_files:
  "char_of (97::nat) = CHR ''a''" "char_of (98::nat) = CHR ''b''" "char_of (99::nat) = CHR ''c''"
  "char_of (100::nat) = CHR ''d''" "char_of (101::nat) = CHR ''e''" "char_of (102::nat) = CHR ''f''"
  "char_of (103::nat) = CHR ''g''" "char_of (104::nat) = CHR ''h''"
  by code_simp+

lemma names_False: "concat (map (\<lambda>r. map (square_name False r) [0..<8]) [0..<8]) =
  [''a8'', ''b8'', ''c8'', ''d8'', ''e8'', ''f8'', ''g8'', ''h8'',
   ''a7'', ''b7'', ''c7'', ''d7'', ''e7'', ''f7'', ''g7'', ''h7'',
   ''a6'', ''b6'', ''c6'', ''d6'', ''e6'', ''f6'', ''g6'', ''h6'',
   ''a5'', ''b5'', ''c5'', ''d5'', ''e5'', ''f5'', ''g5'', ''h5'',
   ''a4'', ''b4'', ''c4'', ''d4'', ''e4'', ''f4'', ''g4'', ''h4'',
   ''a3'', ''b3'', ''c3'', ''d3'', ''e3'', ''f3'', ''g3'', ''h3'',
   ''a2'', ''b2'', ''c2'', ''d2'', ''e2'', ''f2'', ''g2'', ''h2'',
   ''a1'', ''b1'', ''c1'', ''d1'', ''e1'', ''f1'', ''g1'', ''h1'']"
  by (simp add: upt8 square_name_def fromCharCode_def int_of_safe digits.simps digit_def char_of_files)

lemma names_True: "concat (map (\<lambda>r. map (square_name True r) [0..<8]) [0..<8]) =
  rev [''a8'', ''b8'', ''c8'', ''d8'', ''e8'', ''f8'', ''g8'', ''h8'',
   ''a7'', ''b7'', ''c7'', ''d7'', ''e7'', ''f7'', ''g7'', ''h7'',
   ''a6'', ''b6'', ''c6'', ''d6'', ''e6'', ''f6'', ''g6'', ''h6'',
   ''a5'', ''b5'', ''c5'', ''d5'', ''e5'', ''f5'', ''g5'', ''h5'',
   ''a4'', ''b4'', ''c4'', ''d4'', ''e4'', ''f4'', ''g4'', ''h4'',
   ''a3'', ''b3'', ''c3'', ''d3'', ''e3'', ''f3'', ''g3'', ''h3'',
   ''a2'', ''b2'', ''c2'', ''d2'', ''e2'', ''f2'', ''g2'', ''h2'',
   ''a1'', ''b1'', ''c1'', ''d1'', ''e1'', ''f1'', ''g1'', ''h1'']"
  by (simp add: upt8 square_name_def fromCharCode_def int_of_safe digits.simps digit_def char_of_files)

lemma distinct_names_False: "distinct (concat (map (\<lambda>r. map (square_name False r) [0..<8]) [0..<8]))"
  unfolding names_False by simp

lemma set_names_False: "set (concat (map (\<lambda>r. map (square_name False r) [0..<8]) [0..<8])) = set all_squares"
  unfolding names_False all_squares_def by (simp add: insert_commute)

lemma distinct_names_True: "distinct (concat (map (\<lambda>r. map (square_name True r) [0..<8]) [0..<8]))"
  unfolding names_True by simp

lemma set_names_True: "set (concat (map (\<lambda>r. map (square_name True r) [0..<8]) [0..<8])) = set all_squares"
  unfolding names_True all_squares_def by (simp add: insert_commute)

lemma distinct_names: "distinct (concat (map (\<lambda>r. map (square_name fl r) [0..<8]) [0..<8]))"
  by (cases fl) (simp_all only: distinct_names_True distinct_names_False)

lemma set_names: "set (concat (map (\<lambda>r. map (square_name fl r) [0..<8]) [0..<8])) = set all_squares"
  by (cases fl) (simp_all only: set_names_True set_names_False)

lemma map_dataset_square_board:
  "map dataset_square (board (renderBoard L s)) =
     concat (map (\<lambda>r. map (square_name
        (if isBoardRotated (gameState s) then playerColor (gameState s) = White
         else playerColor (gameState s) = Black) r) [0..<8]) [0..<8])"
  by (simp add: board_renderBoard map_concat comp_def dataset_square_cell)

lemma length_board_renderBoard: "length (board (renderBoard L s)) = 64"
  by (simp add: board_renderBoard length_concat comp_def upt8)

named_theorems frame

lemma renderBoard_frame [frame]:
  "game (renderBoard L s) = game s" "engine (renderBoard L s) = engine s"
  "gameState (renderBoard L s) = gameState s" "status (renderBoard L s) = status s"
  "historyPanel (renderBoard L s) = historyPanel s" "timers (renderBoard L s) = timers s"
  by (simp_all add: renderBoard_def Let_def)

lemma renderHistory_frame [frame]:
  "game (renderHistory L s) = game s" "engine (renderHistory L s) = engine s"
  "gameState (renderHistory L s) = gameState s" "status (renderHistory L s) = status s"
  "board (renderHistory L s) = board s" "timers (renderHistory L s) = timers s"
  by (simp_all add: renderHistory_def)

lemma updateStatus_frame [frame]:
  "game (updateStatus L s) = game s" "engine (updateStatus L s) = engine s"
  "gameState (updateStatus L s) = gameState s" "historyPanel (updateStatus L s) = historyPanel s"
  "board (updateStatus L s) = board s" "timers (updateStatus L s) = timers s"
  by (simp_all add: updateStatus_def)

lemma updateUI_frame [frame]:
  "game (updateUI L s) = game s" "engine (updateUI L s) = engine s"
  "gameState (updateUI L s) = gameState s" "timers (updateUI L s) = timers s"
  "board (updateUI L s) = board (renderBoard L s)"
  by (simp_all add: updateUI_def frame)

lemma makeAiMove_frame [frame]:
  "game (makeAiMove L s) = game s" "engine (makeAiMove L s) = engine s"
  "gameState (makeAiMove L s) = (gameState s)\<lparr>isAiThinking := True\<rparr>"
  "historyPanel (makeAiMove L s) = historyPanel s"
  "board (makeAiMove L s) = board s" "timers (makeAiMove L s) = timers s + 1"
  by (simp_all add: makeAiMove_def Let_def frame)

lemma createSquareElement_board:
  "createSquareElement L (s\<lparr>board := b\<rparr>) sq li pc lm rl fl = createSquareElement L s sq li pc lm rl fl"
  by (simp add: createSquareElement_def cong: option.case_cong if_cong)

lemma cell_board: "cell L (s\<lparr>board := b\<rparr>) = cell L s"
  by (intro ext) (simp add: cell_def createSquareElement_board Let_def)

lemma renderBoard_board_indep: "board (renderBoard L (s\<lparr>board := b\<rparr>)) = board (renderBoard L s)"
  unfolding board_renderBoard by (simp add: cell_board)

lemma renderBoard_eq: "renderBoard L s = s\<lparr>board := board (renderBoard L s)\<rparr>"
  by (simp add: renderBoard_def Let_def)

text \<open>
  C6. For every library, game and \<^verbatim>\<open>gameState\<close>, \<^verbatim>\<open>renderBoard\<close> changes nothing but the
  children of the board, and the new children do not depend on the old ones. There are
  exactly 64 of them, one per cell of the 8 rows by 8 columns in the order of the two
  loops, and their squares are the 64 squares \<^verbatim>\<open>a1\<close> to \<^verbatim>\<open>h8\<close>, each exactly once, in
  either orientation.
\<close>

theorem renderBoard_64_cells:
  "renderBoard L s = s\<lparr>board := board (renderBoard L s)\<rparr>
   \<and> board (renderBoard L (s\<lparr>board := b\<rparr>)) = board (renderBoard L s)
   \<and> length (board (renderBoard L s)) = 64
   \<and> map dataset_square (board (renderBoard L s)) =
        concat (map (\<lambda>r. map (\<lambda>c. square_name
          (if isBoardRotated (gameState s) then playerColor (gameState s) = White
           else playerColor (gameState s) = Black) r c) [0..<8]) [0..<8])
   \<and> distinct (map dataset_square (board (renderBoard L s)))
   \<and> set (map dataset_square (board (renderBoard L s))) = set all_squares"
proof -
  let ?fl = "if isBoardRotated (gameState s) then playerColor (gameState s) = White
           else playerColor (gameState s) = Black"
  have d: "distinct (concat (map (\<lambda>r. map (square_name ?fl r) [0..<8]) [0..<8]))"
    by (rule distinct_names)
  have c: "set (concat (map (\<lambda>r. map (square_name ?fl r) [0..<8]) [0..<8])) = set all_squares"
    by (rule set_names)
  from d c show ?thesis
    using renderBoard_eq [of L s] renderBoard_board_indep [where L = L and s = s and b = b]
      length_board_renderBoard [of L s] map_dataset_square_board [of L s]
    by simp
qed

section \<open>Clicks on squares\<close>

text \<open>
  C9. \<^verbatim>\<open>handleSquareClick\<close> leaves the game as it is, so its position, history and turn
  are unchanged; of \<^verbatim>\<open>gameState\<close> it changes at most \<^verbatim>\<open>selectedSquare\<close> and
  \<^verbatim>\<open>possibleMoves\<close>; the engine, the status line, the history panel and the pending
  timeouts are unchanged, and the board is either left alone or drawn again from the
  state. When the engine is thinking, the game is over, or it is not the player's turn,
  the whole state is unchanged.
\<close>

theorem handleSquareClick_frame:
  "game (handleSquareClick L sq s) = game s
   \<and> fen L (game (handleSquareClick L sq s)) = fen L (game s)
   \<and> history L (game (handleSquareClick L sq s)) = history L (game s)
   \<and> turn L (game (handleSquareClick L sq s)) = turn L (game s)
   \<and> gameState (handleSquareClick L sq s) =
        (gameState s)\<lparr>selectedSquare := selectedSquare (gameState (handleSquareClick L sq s)),
                       possibleMoves := possibleMoves (gameState (handleSquareClick L sq s))\<rparr>
   \<and> engine (handleSquareClick L sq s) = engine s
   \<and> status (handleSquareClick L sq s) = status s
   \<and> historyPanel (handleSquareClick L sq s) = historyPanel s
   \<and> timers (handleSquareClick L sq s) = timers s
   \<and> (board (handleSquareClick L sq s) = board s
        \<or> board (handleSquareClick L sq s) = board (renderBoard L (handleSquareClick L sq s)))
   \<and> (isAiThinking (gameState s) \<or> isGameOver L (game s) \<or> turn L (game s) \<noteq> playerColor (gameState s)
        \<longrightarrow> handleSquareClick L sq s = s)"
proof -
  let ?s' = "handleSquareClick L sq s"
  have g: "game ?s' = game s"
    by (simp add: handleSquareClick_def Let_def frame)
  have gs: "gameState ?s' = (gameState s)\<lparr>selectedSquare := selectedSquare (gameState ?s'),
                       possibleMoves := possibleMoves (gameState ?s')\<rparr>"
    by (simp add: handleSquareClick_def Let_def frame)
  have rest: "engine ?s' = engine s" "status ?s' = status s" "historyPanel ?s' = historyPanel s"
      "timers ?s' = timers s"
    by (simp_all add: handleSquareClick_def Let_def frame)
  have b: "board ?s' = board s \<or> board ?s' = board (renderBoard L ?s')"
    by (simp add: handleSquareClick_def Let_def frame)
       (metis renderBoard_board_indep renderBoard_eq)
  have guard: "isAiThinking (gameState s) \<or> isGameOver L (game s) \<or> turn L (game s) \<noteq> playerColor (gameState s)
        \<longrightarrow> ?s' = s"
    by (auto simp: handleSquareClick_def)
  from g gs rest b guard show ?thesis
    by simp
qed

text \<open>
  A click on \<^verbatim>\<open>e2\<close> while the engine is thinking.
\<close>

theorem handleSquareClick_frame_witness:
  "isAiThinking (gameState (makeAiMove demo_chess (app0 demo_chess demo_page True)))
   \<and> handleSquareClick demo_chess ''e2'' (makeAiMove demo_chess (app0 demo_chess demo_page True))
       = makeAiMove demo_chess (app0 demo_chess demo_page True)"
proof -
  have t: "isAiThinking (gameState (makeAiMove demo_chess (app0 demo_chess demo_page True)))"
    by (simp add: frame)
  then have "isAiThinking (gameState (makeAiMove demo_chess (app0 demo_chess demo_page True)))
     \<or> isGameOver demo_chess (game (makeAiMove demo_chess (app0 demo_chess demo_page True)))
     \<or> turn demo_chess (game (makeAiMove demo_chess (app0 demo_chess demo_page True)))
         \<noteq> playerColor (gameState (makeAiMove demo_chess (app0 demo_chess demo_page True)))"
    by blast
  with handleSquareClick_frame
    [of demo_chess "''e2''" "makeAiMove demo_chess (app0 demo_chess demo_page True)"]
  have "handleSquareClick demo_chess ''e2'' (makeAiMove demo_chess (app0 demo_chess demo_page True))
       = makeAiMove demo_chess (app0 demo_chess demo_page True)"
    by blast
  with t show ?thesis by blast
qed

section \<open>The engine of the page stays initialized\<close>

lemma length_workers_unthrown:
  "length (workers (case postCommand cmd e of Inl err \<Rightarrow> e | Inr e' \<Rightarrow> e')) = length (workers e)"
  by (cases "postCommand cmd e") (simp_all add: length_postCommand)













lemma play_Nil: "play L P ok [] = app0 L P ok"
  by (simp add: play_def)

lemma play_snoc: "play L P ok (evs @ [ev]) = dispatch L P ev (play L P ok evs)"
  by (simp add: play_def)




lemma worker_postMessage: "worker (postMessage w m e) = worker e"
  by (simp add: worker_def postMessage_def)












lemma demo_facts:
  "isGameOver demo_chess g = False" "turn demo_chess [] = White" "turn demo_chess [m] = Black"
  "get demo_chess [] ''e2'' = Some \<lparr>pcolor = White, ptype = CHR ''p''\<rparr>"
  "moves demo_chess [] ''e2'' = [e2e3, e2e4]" "history demo_chess g = g"
  "move demo_chess [] (ByMove e2e4) = Some [e2e4]"
  "move demo_chess [] (FromTo ''e2'' ''e4'' None) = Some [e2e4]"
  "reset demo_chess g = []"
  by (simp_all add: demo_chess_def demo_moves_def demo_move_def e2e3_def e2e4_def)



lemma initResumed_Some:
  assumes "worker (engine s) = Some w"
  shows "\<exists>E. initResumed L P s = updateUI L (s\<lparr>engine := E\<rparr>) \<and> onBestMove E = Some ()"
proof -
  obtain e1 where 1: "postCommand (SetOption ''Threads'' (Inr (threads P))) (engine s) = Inr e1"
    and w1: "worker e1 = Some w"
    using assms by (simp add: postCommand_def worker_postMessage)
  obtain e2 where 2: "postCommand (SetOption ''Hash'' (Inr (hash P))) e1 = Inr e2"
    using w1 by (simp add: postCommand_def)
  from 1 2 have "initResumed L P s = updateUI L (s\<lparr>engine := e2\<lparr>onBestMove := Some ()\<rparr>\<rparr>)"
    by (simp add: initResumed_def)
  then show ?thesis
    by (intro exI [of _ "e2\<lparr>onBestMove := Some ()\<rparr>"]) simp
qed





lemma ready_state:
  "\<exists>E. play demo_chess demo_page True [WorkerMessage 0 ''readyok''] =
     updateUI demo_chess ((app0 demo_chess demo_page True)\<lparr>engine := E\<rparr>) \<and> onBestMove E = Some ()"
proof -
  let ?s0 = "app0 demo_chess demo_page True :: Move list app"
  let ?e1 = "settle Fulfilled 0 (engine ?s0)"
  have e0: "workers (engine ?s0) = [\<lparr>posted = [''uci'', ''isready''], ready = Pending\<rparr>]"
    by (simp add: app0_def workers_init new_ChessEngine_def)
  have om: "onmessage 0 ''readyok'' (engine ?s0) = (?e1, None)"
    by (simp add: onmessage_def)
  have r: "ready (workers ?e1 ! 0) = Fulfilled"
    by (simp add: settle_def e0)
  have "worker (engine (?s0\<lparr>engine := ?e1\<rparr>)) = Some 0"
    by (simp add: worker_def settle_def e0)
  from initResumed_Some [OF this, of demo_chess demo_page]
  obtain E where "initResumed demo_chess demo_page (?s0\<lparr>engine := ?e1\<rparr>) =
      updateUI demo_chess (?s0\<lparr>engine := E\<rparr>)" and "onBestMove E = Some ()"
    by auto
  then have "play demo_chess demo_page True [WorkerMessage 0 ''readyok''] =
      updateUI demo_chess (?s0\<lparr>engine := E\<rparr>) \<and> onBestMove E = Some ()"
    using om r by (simp add: play_def dispatch_def awaitInit_def e0)
  then show ?thesis by blast
qed






section \<open>The moves of the player\<close>

lemma find_first_Some: "find_first p xs = Some x \<Longrightarrow> x \<in> set xs \<and> p x"
  by (induction xs) (auto split: if_splits)

lemma onclick_createSquareElement:
  "onclick (createSquareElement L s sq li pc lm rl fl) = HandleMove m \<Longrightarrow>
     m \<in> set (possibleMoves (gameState s)) \<and> to_sq m = sq"
  by (auto simp: createSquareElement_def Let_def split: option.splits dest: find_first_Some)

lemma onclick_cell:
  "onclick (cell L s fl lm r c) = HandleMove m \<Longrightarrow> m \<in> set (possibleMoves (gameState s))"
  unfolding cell_def Let_def by (drule onclick_createSquareElement) simp

lemma handlers_ok_renderBoard:
  "pm = possibleMoves (gameState s) \<Longrightarrow> handlers_ok_on (board (renderBoard L s)) pm"
  unfolding handlers_ok_on_def board_renderBoard by (auto dest: onclick_cell)

lemma handlers_ok_on_Nil: "handlers_ok_on [] pm"
  by (simp add: handlers_ok_on_def)

lemma handlers_ok_engine: "handlers_ok (s\<lparr>engine := e\<rparr>) = handlers_ok s"
  by (simp add: handlers_ok_def)

lemma handlers_ok_timers: "handlers_ok (s\<lparr>timers := n\<rparr>) = handlers_ok s"
  by (simp add: handlers_ok_def)

lemma handlers_ok_handleSquareClick:
  "handlers_ok s \<Longrightarrow> handlers_ok (handleSquareClick L sq s)"
  by (auto simp: handlers_ok_def handleSquareClick_def Let_def frame
      intro!: handlers_ok_renderBoard split: option.splits)

lemma handlers_ok_handleMove:
  "handlers_ok s \<Longrightarrow> handlers_ok (fst (handleMove L m s))"
  by (auto simp: handlers_ok_def handleMove_def Let_def frame
      intro!: handlers_ok_renderBoard split: option.splits)

lemma handlers_ok_startNewGame:
  "handlers_ok s \<Longrightarrow> handlers_ok (fst (startNewGame L s))"
  by (auto simp: handlers_ok_def startNewGame_def Let_def frame
      intro!: handlers_ok_renderBoard split: sum.splits)

lemma handlers_ok_playAs:
  "handlers_ok s \<Longrightarrow> handlers_ok (fst (playAs L c s))"
  unfolding playAs_def by (rule handlers_ok_startNewGame) (simp add: handlers_ok_def)

lemma handlers_ok_undoClick:
  "handlers_ok s \<Longrightarrow> handlers_ok (undoClick L s)"
  by (auto simp: handlers_ok_def undoClick_def Let_def frame intro!: handlers_ok_renderBoard)

lemma handlers_ok_rotateClick: "handlers_ok (rotateClick L s)"
  by (auto simp: handlers_ok_def rotateClick_def frame intro!: handlers_ok_renderBoard)

lemma handlers_ok_aiTimeout:
  "handlers_ok s \<Longrightarrow> handlers_ok (fst (aiTimeout L now s))"
  by (auto simp: handlers_ok_def aiTimeout_def Let_def split: sum.splits)

lemma handlers_ok_bestMove:
  "handlers_ok s \<Longrightarrow> handlers_ok (bestMove L mv s)"
  by (auto simp: handlers_ok_def bestMove_def Let_def frame
      intro!: handlers_ok_renderBoard split: option.splits)

lemma handlers_ok_initResumed:
  "handlers_ok s \<Longrightarrow> handlers_ok (initResumed L P s)"
  by (auto simp: handlers_ok_def initResumed_def initFailed_def frame
      intro!: handlers_ok_renderBoard split: sum.splits)

lemma handlers_ok_awaitInit:
  "handlers_ok s \<Longrightarrow> handlers_ok (awaitInit L P w b s)"
  by (simp add: awaitInit_def handlers_ok_initResumed)

lemma handlers_ok_initFailed: "handlers_ok s \<Longrightarrow> handlers_ok (initFailed s)"
  by (simp add: handlers_ok_def initFailed_def)

lemma handlers_ok_dispatch:
  assumes "handlers_ok s"
  shows "handlers_ok (dispatch L P ev s)"
proof (cases ev)
  case (Click n)
  with assms show ?thesis
    by (simp add: dispatch_def handlers_ok_handleSquareClick handlers_ok_handleMove
        split: handler.splits)
next
  case (AiModeChange v)
  with assms show ?thesis by (simp add: dispatch_def handlers_ok_def)
next
  case (DifficultyInput v)
  with assms show ?thesis by (simp add: dispatch_def handlers_ok_def)
next
  case (TimeInput v)
  with assms show ?thesis by (simp add: dispatch_def handlers_ok_def)
next
  case (PlayAs c)
  with assms show ?thesis by (simp add: dispatch_def handlers_ok_playAs)
next
  case UndoClick
  with assms show ?thesis by (simp add: dispatch_def handlers_ok_undoClick)
next
  case RotateClick
  then show ?thesis by (simp add: dispatch_def handlers_ok_rotateClick)
next
  case (Timeout now)
  with assms show ?thesis
    by (simp add: dispatch_def handlers_ok_aiTimeout handlers_ok_timers)
next
  case (WorkerMessage w data)
  with assms show ?thesis
    by (simp add: dispatch_def Let_def split_beta handlers_ok_bestMove handlers_ok_awaitInit
        handlers_ok_engine split: option.splits)
next
  case (WorkerError w)
  with assms show ?thesis
    by (simp add: dispatch_def Let_def handlers_ok_initFailed handlers_ok_engine)
qed

lemma handlers_ok_play: "handlers_ok (play L P ok evs)"
  by (induction evs rule: rev_induct)
     (simp_all add: play_Nil play_snoc handlers_ok_dispatch,
      simp add: handlers_ok_def app0_def handlers_ok_on_Nil)

lemma selection_fields [simp]:
  "selection (s\<lparr>engine := e\<rparr>) = selection s"
  "selection (s\<lparr>timers := n\<rparr>) = selection s"
  "selection (s\<lparr>game := g\<rparr>) = selection s"
  "selection (s\<lparr>status := t\<rparr>) = selection s"
  "selection (renderBoard L s) = selection s"
  "selection (updateUI L s) = selection s"
  "selection (makeAiMove L s) = selection s"
  by (simp_all add: selection_def frame)

lemma selection_handleSquareClick: "selection_step L s (handleSquareClick L sq s)"
  by (simp add: selection_step_def handleSquareClick_def Let_def)
     (auto simp: selection_def)

lemma selection_handleMove:
  "selection (fst (handleMove L m s)) = selection s \<or> selection (fst (handleMove L m s)) = (None, [])"
  by (auto simp: handleMove_def Let_def split: option.splits) (simp add: selection_def)+

lemma selection_startNewGame:
  "selection (fst (startNewGame L s)) = selection s \<or> selection (fst (startNewGame L s)) = (None, [])"
  by (auto simp: startNewGame_def Let_def split: sum.splits) (simp_all add: selection_def frame)

lemma selection_playAs:
  "selection (fst (playAs L c s)) = selection s \<or> selection (fst (playAs L c s)) = (None, [])"
  using selection_startNewGame [of L "s\<lparr>gameState := (gameState s)\<lparr>playerColor := c\<rparr>\<rparr>"]
  by (simp add: playAs_def selection_def)

lemma selection_undoClick:
  "selection (undoClick L s) = selection s \<or> selection (undoClick L s) = (None, [])"
  by (auto simp: undoClick_def Let_def) (simp_all add: selection_def frame)

lemma selection_rotateClick: "selection (rotateClick L s) = selection s"
  by (simp add: rotateClick_def) (simp add: selection_def)

lemma selection_aiTimeout: "selection (fst (aiTimeout L now s)) = selection s"
  by (auto simp: aiTimeout_def Let_def split: sum.splits) (simp_all add: selection_def)

lemma selection_bestMove: "selection (bestMove L mv s) = selection s"
  by (auto simp: bestMove_def Let_def split: option.splits) (simp_all add: selection_def)

lemma selection_initFailed: "selection (initFailed s) = selection s"
  by (simp add: initFailed_def)

lemma selection_initResumed: "selection (initResumed L P s) = selection s"
  by (auto simp: initResumed_def selection_initFailed split: sum.splits)

lemma selection_awaitInit: "selection (awaitInit L P w b s) = selection s"
  by (simp add: awaitInit_def selection_initResumed)

lemma selection_dispatch: "selection_step L s (dispatch L P ev s)"
proof (cases ev)
  case (Click n)
  show ?thesis
  proof (cases "n < length (board s)")
    case False
    with Click show ?thesis by (simp add: dispatch_def selection_step_def)
  next
    case True
    show ?thesis
    proof (cases "onclick (board s ! n)")
      case (HandleMove m)
      with Click True selection_handleMove [of L m s] show ?thesis
        by (auto simp: dispatch_def selection_step_def)
    next
      case (HandleSquareClick sq)
      with Click True selection_handleSquareClick [of L s sq] show ?thesis
        by (simp add: dispatch_def)
    qed
  qed
next
  case (AiModeChange v)
  then show ?thesis by (simp add: dispatch_def selection_step_def selection_def)
next
  case (DifficultyInput v)
  then show ?thesis by (simp add: dispatch_def selection_step_def selection_def)
next
  case (TimeInput v)
  then show ?thesis by (simp add: dispatch_def selection_step_def selection_def)
next
  case (PlayAs c)
  with selection_playAs [of L c s] show ?thesis
    by (auto simp: dispatch_def selection_step_def)
next
  case UndoClick
  with selection_undoClick [of L s] show ?thesis
    by (auto simp: dispatch_def selection_step_def)
next
  case RotateClick
  then show ?thesis by (simp add: dispatch_def selection_step_def selection_rotateClick)
next
  case (Timeout now)
  then show ?thesis by (simp add: dispatch_def selection_step_def selection_aiTimeout)
next
  case (WorkerMessage w data)
  then show ?thesis
    by (simp add: dispatch_def selection_step_def Let_def split_beta selection_bestMove
        selection_awaitInit split: option.splits)
next
  case (WorkerError w)
  then show ?thesis
    by (simp add: dispatch_def selection_step_def Let_def selection_initFailed)
qed

lemma selection_play:
  "selection (play L P ok evs) = (None, [])
   \<or> (\<exists>pre sq. prefix pre evs \<and> selection (play L P ok evs) = (Some sq, moves L (game (play L P ok pre)) sq))"
proof (induction evs rule: rev_induct)
  case Nil
  then show ?case by (simp add: play_Nil selection_def app0_def)
next
  case (snoc ev evs)
  let ?s = "play L P ok evs" and ?s' = "play L P ok (evs @ [ev])"
  have "selection_step L ?s ?s'"
    by (simp add: play_snoc selection_dispatch)
  then consider "selection ?s' = selection ?s" | "selection ?s' = (None, [])"
    | sq where "selection ?s' = (Some sq, moves L (game ?s) sq)"
    unfolding selection_step_def by blast
  then show ?case
  proof cases
    case 1
    from snoc.IH show ?thesis
    proof
      assume "selection ?s = (None, [])"
      with 1 show ?thesis by simp
    next
      assume "\<exists>pre sq. prefix pre evs \<and> selection ?s = (Some sq, moves L (game (play L P ok pre)) sq)"
      then obtain pre sq where "prefix pre evs"
        and "selection ?s = (Some sq, moves L (game (play L P ok pre)) sq)"
        by blast
      with 1 have "prefix pre (evs @ [ev])"
        and "selection ?s' = (Some sq, moves L (game (play L P ok pre)) sq)"
        by (simp_all add: prefix_prefix)
      then show ?thesis by blast
    qed
  next
    case 2
    then show ?thesis by simp
  next
    case 3
    have "prefix evs (evs @ [ev])" by simp
    with 3 show ?thesis by blast
  qed
qed

lemma handleMove_game:
  "game (fst (handleMove L m s)) = (case move L (game s) (ByMove m) of None \<Rightarrow> game s | Some g \<Rightarrow> g)"
  by (simp add: handleMove_def Let_def frame split: option.splits)

lemma handleSquareClick_game: "game (handleSquareClick L sq s) = game s"
  by (simp add: handleSquareClick_def Let_def frame)

text \<open>
  C5. In every state the page reaches, every move that a click handler of the board
  would hand to \<^verbatim>\<open>handleMove\<close> is in \<^verbatim>\<open>gameState.possibleMoves\<close>. A click on the board
  either leaves the game as it is, or it ran \<^verbatim>\<open>handleMove\<close> on a move \<open>m\<close> such that: \<open>m\<close>
  is in \<^verbatim>\<open>gameState.possibleMoves\<close>; that list is the list the library returned from
  \<^verbatim>\<open>game.moves\<close> for the square that is selected, at an earlier point of the run; and
  the new game is the one the library's \<^verbatim>\<open>game.move\<close> returned for \<open>m\<close>.
\<close>

theorem player_moves_come_from_the_library:
  "(\<forall>el \<in> set (board (play L P ok evs)). \<forall>m. onclick el = HandleMove m \<longrightarrow>
       m \<in> set (possibleMoves (gameState (play L P ok evs))))
   \<and> (game (dispatch L P (Click n) (play L P ok evs)) = game (play L P ok evs)
      \<or> (\<exists>m pre sq.
            n < length (board (play L P ok evs))
            \<and> onclick (board (play L P ok evs) ! n) = HandleMove m
            \<and> m \<in> set (possibleMoves (gameState (play L P ok evs)))
            \<and> prefix pre evs
            \<and> selectedSquare (gameState (play L P ok evs)) = Some sq
            \<and> possibleMoves (gameState (play L P ok evs)) = moves L (game (play L P ok pre)) sq
            \<and> move L (game (play L P ok evs)) (ByMove m)
                = Some (game (dispatch L P (Click n) (play L P ok evs)))))"
proof -
  let ?s = "play L P ok evs"
  have ok: "\<forall>el \<in> set (board ?s). \<forall>m. onclick el = HandleMove m \<longrightarrow>
       m \<in> set (possibleMoves (gameState ?s))"
    using handlers_ok_play [of L P ok evs] by (simp add: handlers_ok_def handlers_ok_on_def)
  have click: "game (dispatch L P (Click n) ?s) = game ?s
      \<or> (\<exists>m pre sq.
            n < length (board ?s) \<and> onclick (board ?s ! n) = HandleMove m
            \<and> m \<in> set (possibleMoves (gameState ?s)) \<and> prefix pre evs
            \<and> selectedSquare (gameState ?s) = Some sq
            \<and> possibleMoves (gameState ?s) = moves L (game (play L P ok pre)) sq
            \<and> move L (game ?s) (ByMove m) = Some (game (dispatch L P (Click n) ?s)))"
  proof (cases "n < length (board ?s)")
    case False
    then show ?thesis by (simp add: dispatch_def)
  next
    case True
    show ?thesis
    proof (cases "onclick (board ?s ! n)")
      case (HandleSquareClick sq)
      with True show ?thesis by (simp add: dispatch_def handleSquareClick_game)
    next
      case (HandleMove m)
      with True have d: "dispatch L P (Click n) ?s = fst (handleMove L m ?s)"
        by (simp add: dispatch_def)
      show ?thesis
      proof (cases "move L (game ?s) (ByMove m)")
        case None
        with d show ?thesis by (simp add: handleMove_game)
      next
        case (Some g)
        with d have mv: "move L (game ?s) (ByMove m) = Some (game (dispatch L P (Click n) ?s))"
          by (simp add: handleMove_game)
        from True have "board ?s ! n \<in> set (board ?s)" by simp
        with ok HandleMove have mem: "m \<in> set (possibleMoves (gameState ?s))" by blast
        then have "selection ?s \<noteq> (None, [])"
          by (auto simp: selection_def)
        with selection_play [of L P ok evs] obtain pre sq where "prefix pre evs"
          and "selection ?s = (Some sq, moves L (game (play L P ok pre)) sq)"
          by blast
        then have "prefix pre evs" "selectedSquare (gameState ?s) = Some sq"
          "possibleMoves (gameState ?s) = moves L (game (play L P ok pre)) sq"
          by (simp_all add: selection_def)
        with True HandleMove mem mv show ?thesis by blast
      qed
    qed
  qed
  from ok click show ?thesis by blast
qed

subsection \<open>A concrete run\<close>

lemma onclick_createSquareElement_eq:
  "onclick (createSquareElement L s sq li pc lm rl fl) =
     (case find_first (\<lambda>m. to_sq m = sq) (possibleMoves (gameState s)) of
        None \<Rightarrow> HandleSquareClick sq
      | Some m \<Rightarrow> HandleMove m)"
  by (simp add: createSquareElement_def Let_def)

lemma onclick_cell_eq:
  "onclick (cell L s fl lm r c) =
     (case find_first (\<lambda>m. to_sq m = square_name fl r c) (possibleMoves (gameState s)) of
        None \<Rightarrow> HandleSquareClick (square_name fl r c)
      | Some m \<Rightarrow> HandleMove m)"
  unfolding cell_def Let_def onclick_createSquareElement_eq square_name_def by (rule refl)

lemma square_name_e2_e4: "square_name False 6 4 = ''e2''" "square_name False 4 4 = ''e4''"
  by (simp_all add: square_name_def fromCharCode_def char_of_files int_of_safe digits.simps digit_def)

lemma nth_board_52_36:
  "board (renderBoard L s) ! 52 =
     cell L s (if isBoardRotated (gameState s) then playerColor (gameState s) = White
               else playerColor (gameState s) = Black)
       (if length (history L (game s)) > 0
        then Some (history L (game s) ! (length (history L (game s)) - 1)) else None) 6 4"
  "board (renderBoard L s) ! 36 =
     cell L s (if isBoardRotated (gameState s) then playerColor (gameState s) = White
               else playerColor (gameState s) = Black)
       (if length (history L (game s)) > 0
        then Some (history L (game s) ! (length (history L (game s)) - 1)) else None) 4 4"
  by (simp_all add: board_renderBoard upt8)

lemma e2_selected_state:
  "game (play demo_chess demo_page True e2_selected) = []"
  "selectedSquare (gameState (play demo_chess demo_page True e2_selected)) = Some ''e2''"
  "possibleMoves (gameState (play demo_chess demo_page True e2_selected)) = [e2e3, e2e4]"
  "36 < length (board (play demo_chess demo_page True e2_selected))"
  "onclick (board (play demo_chess demo_page True e2_selected) ! 36) = HandleMove e2e4"
proof -
  let ?s0 = "app0 demo_chess demo_page True :: Move list app"
  obtain E where s1: "play demo_chess demo_page True [WorkerMessage 0 ''readyok''] =
     updateUI demo_chess (?s0\<lparr>engine := E\<rparr>)"
    using ready_state by blast
  let ?s1 = "updateUI demo_chess (?s0\<lparr>engine := E\<rparr>)"
  have g1: "game ?s1 = []" and gs1: "gameState ?s1 = gameState ?s0"
    by (simp_all add: frame app0_def demo_chess_def)
  have gs0: "gameState ?s0 = \<lparr>playerColor = White, aiMode = ''depth'', aiDepth = Num (safe 12),
                   aiTime = Num (safe 1500), selectedSquare = None, possibleMoves = [],
                   isAiThinking = False, aiStartTime = 0, isBoardRotated = False\<rparr>"
    by (simp add: app0_def demo_page_def)
  have c1: "onclick (board ?s1 ! 52) = HandleSquareClick ''e2''"
    by (simp add: frame nth_board_52_36 onclick_cell_eq gs0 square_name_e2_e4)
  have l1: "52 < length (board ?s1)"
    by (simp add: frame length_board_renderBoard)
  have "play demo_chess demo_page True e2_selected = dispatch demo_chess demo_page (Click 52) ?s1"
    using s1 by (simp add: e2_selected_def play_def)
  also have "\<dots> = handleSquareClick demo_chess ''e2'' ?s1"
    using c1 l1 by (simp add: dispatch_def)
  also have "\<dots> = renderBoard demo_chess
      (?s1\<lparr>gameState := (gameState ?s1)\<lparr>selectedSquare := Some ''e2'', possibleMoves := [e2e3, e2e4]\<rparr>\<rparr>)"
    by (simp add: handleSquareClick_def g1 gs1 gs0 demo_facts)
  finally have s2: "play demo_chess demo_page True e2_selected = renderBoard demo_chess
      (?s1\<lparr>gameState := (gameState ?s1)\<lparr>selectedSquare := Some ''e2'', possibleMoves := [e2e3, e2e4]\<rparr>\<rparr>)" .
  show "game (play demo_chess demo_page True e2_selected) = []"
    unfolding s2 by (simp add: frame app0_def demo_chess_def)
  show "selectedSquare (gameState (play demo_chess demo_page True e2_selected)) = Some ''e2''"
    unfolding s2 by (simp add: frame)
  show "possibleMoves (gameState (play demo_chess demo_page True e2_selected)) = [e2e3, e2e4]"
    unfolding s2 by (simp add: frame)
  show "36 < length (board (play demo_chess demo_page True e2_selected))"
    unfolding s2 by (simp add: length_board_renderBoard)
  show "onclick (board (play demo_chess demo_page True e2_selected) ! 36) = HandleMove e2e4"
    unfolding s2
    by (simp add: nth_board_52_36 onclick_cell_eq frame gs1 gs0 square_name_e2_e4 e2e3_def e2e4_def)
qed

text \<open>
  With the small library: the engine reports ready, the player clicks \<^verbatim>\<open>e2\<close> and then
  \<^verbatim>\<open>e4\<close>; the move made is the library's move from \<^verbatim>\<open>e2\<close> to \<^verbatim>\<open>e4\<close>.
\<close>

theorem player_moves_come_from_the_library_witness:
  "game (play demo_chess demo_page True e2_selected) = []
   \<and> game (dispatch demo_chess demo_page (Click 36) (play demo_chess demo_page True e2_selected)) = [e2e4]
   \<and> (\<exists>m pre sq.
         onclick (board (play demo_chess demo_page True e2_selected) ! 36) = HandleMove m
         \<and> m \<in> set (possibleMoves (gameState (play demo_chess demo_page True e2_selected)))
         \<and> prefix pre e2_selected
         \<and> selectedSquare (gameState (play demo_chess demo_page True e2_selected)) = Some sq
         \<and> possibleMoves (gameState (play demo_chess demo_page True e2_selected))
             = moves demo_chess (game (play demo_chess demo_page True pre)) sq
         \<and> move demo_chess (game (play demo_chess demo_page True e2_selected)) (ByMove m)
             = Some (game (dispatch demo_chess demo_page (Click 36) (play demo_chess demo_page True e2_selected))))"
proof -
  let ?s = "play demo_chess demo_page True e2_selected"
  have "dispatch demo_chess demo_page (Click 36) ?s = fst (handleMove demo_chess e2e4 ?s)"
    by (simp add: dispatch_def e2_selected_state)
  then have g: "game (dispatch demo_chess demo_page (Click 36) ?s) = [e2e4]"
    by (simp add: handleMove_game e2_selected_state demo_facts)
  then have "game (dispatch demo_chess demo_page (Click 36) ?s) \<noteq> game ?s"
    by (simp add: e2_selected_state)
  with player_moves_come_from_the_library
    [where L = demo_chess and P = demo_page and ok = True and evs = e2_selected and n = 36,
      THEN conjunct2]
  have "\<exists>m pre sq.
            36 < length (board ?s) \<and> onclick (board ?s ! 36) = HandleMove m
            \<and> m \<in> set (possibleMoves (gameState ?s)) \<and> prefix pre e2_selected
            \<and> selectedSquare (gameState ?s) = Some sq
            \<and> possibleMoves (gameState ?s) = moves demo_chess (game (play demo_chess demo_page True pre)) sq
            \<and> move demo_chess (game ?s) (ByMove m)
                = Some (game (dispatch demo_chess demo_page (Click 36) ?s))"
    by blast
  then have "\<exists>m pre sq.
            onclick (board ?s ! 36) = HandleMove m
            \<and> m \<in> set (possibleMoves (gameState ?s)) \<and> prefix pre e2_selected
            \<and> selectedSquare (gameState ?s) = Some sq
            \<and> possibleMoves (gameState ?s) = moves demo_chess (game (play demo_chess demo_page True pre)) sq
            \<and> move demo_chess (game ?s) (ByMove m)
                = Some (game (dispatch demo_chess demo_page (Click 36) ?s))"
    by blast
  with g e2_selected_state(1) show ?thesis
    by (intro conjI)
qed

end
